theory Spec2Isabelle
  imports Main "HOL-Library.Word"
begin

section \<open>Trashcan-Panda-i2c-Test: the sketch as a state-passing model\<close>

text \<open>
  The sketch \<^verbatim>\<open>src/Trashcan-Panda-i2c-Test.ino\<close> talks to four peripherals through vendor
  drivers. The drivers are not part of the sketch, so every answer a driver gives is an
  input of the model (one field of an environment record per call site) and every call
  the sketch makes is recorded, in program order, in a trace of events. The globals of
  the sketch are the fields of one record that each block takes and returns.
\<close>

subsection \<open>Machine types, pins and constants\<close>

type_synonym byte = "8 word"

text \<open>\<^verbatim>\<open>unsigned long\<close> on the 32-bit target: subtraction wraps modulo \<open>2 ^ 32\<close>.\<close>

type_synonym ulong = "32 word"

datatype pin = A4 | D2 | D3 | D4 | D7 | D8

datatype pin_mode = INPUT | OUTPUT

definition disableModule :: pin where
  "disableModule = D2"

definition intPin :: pin where
  "intPin = D3"

definition FRAMversionNumber :: int where
  "FRAMversionNumber = 42"

text \<open>\<^verbatim>\<open>FRAM::versionAddr\<close> of the \<^verbatim>\<open>Addresses\<close> enum.\<close>

definition versionAddr :: nat where
  "versionAddr = 0"

text \<open>
  The constants \<^verbatim>\<open>LIS3DH::RATE_100_HZ\<close> and \<^verbatim>\<open>AB1805::WATCHDOG_MAX_SECONDS\<close> are declared
  in the drivers' headers; the sketch only passes them on, so they stay symbolic.
\<close>

datatype accel_rate = RATE_100_HZ

datatype wdt_seconds = WATCHDOG_MAX_SECONDS

subsection \<open>Events: the calls the sketch makes, with the driver's answer\<close>

datatype event =
    WireBegin
  | PinMode pin pin_mode
  | DigitalWrite pin bool
  | Delay nat
  | WireProbe byte byte
    \<comment> \<open>\<^verbatim>\<open>Wire.beginTransmission(address); error = Wire.endTransmission();\<close>\<close>
  | LogInfo string "int list"
    \<comment> \<open>\<^verbatim>\<open>Log.info(fmt, args...)\<close>: the format string and its arguments\<close>
  | SerialPrintln string
  | AccelSetup accel_rate bool
  | TofBegin int
  | FramBegin
  | FramGet nat byte
    \<comment> \<open>\<^verbatim>\<open>fram.get(addr, tempVersion)\<close> and the byte found in \<^verbatim>\<open>tempVersion\<close> afterwards\<close>
  | FramErase
  | FramPut nat int
  | Ab1805Setup pin
  | Ab1805SetWDT wdt_seconds
  | Ab1805DetectChip bool
  | TofStartRanging
  | TofCheckForDataReady bool
  | TofGetDistance int
  | TofClearInterrupt
  | TofStopRanging
  | AccelGetSample "(int \<times> int \<times> int) option"

subsection \<open>The globals of the sketch\<close>

record globals =
  sensorOnlineTOF :: bool
  sensorOnlineLIS3DH :: bool
  carrierOnline :: bool
  lastSampleTimestamp :: ulong
  sampleRateMillis :: ulong
  powerCycleOnce :: bool
  trace :: "event list"

text \<open>The initialisers of lines 40-46; \<^verbatim>\<open>lastSampleTimestamp\<close> has none and is zero.\<close>

definition initial :: globals where
  "initial = \<lparr> sensorOnlineTOF = False, sensorOnlineLIS3DH = False, carrierOnline = False,
               lastSampleTimestamp = 0, sampleRateMillis = 2000, powerCycleOnce = True,
               trace = [] \<rparr>"

definition emit :: "event \<Rightarrow> globals \<Rightarrow> globals" where
  "emit e s = s\<lparr>trace := trace s @ [e]\<rparr>"

definition emits :: "event list \<Rightarrow> globals \<Rightarrow> globals" where
  "emits es s = s\<lparr>trace := trace s @ es\<rparr>"

definition logInfo :: "string \<Rightarrow> int list \<Rightarrow> globals \<Rightarrow> globals" where
  "logInfo fmt args s = emit (LogInfo fmt args) s"

text \<open>
  How a call ends: it returns, it reaches \<^verbatim>\<open>while(1);\<close>, or it never leaves the
  wait for the distance sensor. The state is the one reached at that point.
\<close>

datatype outcome = Returned globals | Halted globals | Hung globals

fun outcome_state :: "outcome \<Rightarrow> globals" where
  "outcome_state (Returned s) = s"
| "outcome_state (Halted s) = s"
| "outcome_state (Hung s) = s"

fun isReturned :: "outcome \<Rightarrow> bool" where
  "isReturned (Returned s) = True"
| "isReturned (Halted s) = False"
| "isReturned (Hung s) = False"

fun isHalted :: "outcome \<Rightarrow> bool" where
  "isHalted (Returned s) = False"
| "isHalted (Halted s) = True"
| "isHalted (Hung s) = False"

fun isHung :: "outcome \<Rightarrow> bool" where
  "isHung (Returned s) = False"
| "isHung (Halted s) = False"
| "isHung (Hung s) = True"

subsection \<open>The C library calls used on \<^verbatim>\<open>resultStr\<close>\<close>

definition hexDigit :: "nat \<Rightarrow> char" where
  "hexDigit d = ''0123456789ABCDEF'' ! d"

fun hexStr :: "nat \<Rightarrow> string" where
  "hexStr n = (if n < 16 then [hexDigit n] else hexStr (n div 16) @ [hexDigit (n mod 16)])"

text \<open>The conversion \<^verbatim>\<open>%02X\<close>: upper-case hexadecimal, zero-padded to two digits.\<close>

definition fmt02X :: "nat \<Rightarrow> string" where
  "fmt02X n = (let h = hexStr n in replicate (2 - length h) (CHR ''0'') @ h)"

text \<open>\<^verbatim>\<open>snprintf(buf, n, ...)\<close> keeps at most \<open>n - 1\<close> characters of the formatted text.\<close>

definition snprintf :: "nat \<Rightarrow> string \<Rightarrow> string" where
  "snprintf n s = take (n - 1) s"

definition strncat :: "string \<Rightarrow> string \<Rightarrow> nat \<Rightarrow> string" where
  "strncat dest src n = dest @ take n src"

definition strncpy :: "string \<Rightarrow> nat \<Rightarrow> string" where
  "strncpy src n = take n src"

subsection \<open>\<^verbatim>\<open>i2cScan\<close> (lines 205-243)\<close>

text \<open>
  The bus is the answer of \<^verbatim>\<open>Wire.endTransmission()\<close> for each address. The \<^verbatim>\<open>for\<close> loop
  is left in three ways: its condition fails or \<^verbatim>\<open>break\<close> is taken (the locals go on to
  the code after the loop), or \<^verbatim>\<open>return 0\<close> is executed inside it.
\<close>

datatype for_exit = LoopDone string int | LoopReturn bool

function i2cScan_for :: "(byte \<Rightarrow> byte) \<Rightarrow> byte \<Rightarrow> string \<Rightarrow> int \<Rightarrow> event list \<times> for_exit" where
  "i2cScan_for bus address resultStr nDevices =
     (if address < 127 then
        (let error = bus address;
             probe = WireProbe address error
         in if error = 0 then
              (let tempString = snprintf 4 (fmt02X (unat address) @ '' '');
                   resultStr' = strncat resultStr tempString 4;
                   nDevices' = nDevices + 1
               in if nDevices' = 9 then ([probe], LoopDone resultStr' nDevices')
                  else (case i2cScan_for bus (address + 1) resultStr' nDevices' of
                          (evs, ex) \<Rightarrow> (probe # evs, ex)))
            else if error = 4 then
              (let resultStr' = snprintf 128 (''Unknown error at address '' @ fmt02X (unat address))
               in ([probe, LogInfo resultStr' []], LoopReturn False))
            else (case i2cScan_for bus (address + 1) resultStr nDevices of
                    (evs, ex) \<Rightarrow> (probe # evs, ex)))
      else ([], LoopDone resultStr nDevices))"
  by pat_completeness auto
termination
  by (relation "measure (\<lambda>(bus, address, resultStr, nDevices). 127 - unat address)")
     (auto simp: word_less_nat_alt unat_word_ariths)

declare i2cScan_for.simps [simp del]

text \<open>The events of one scan, in order, and the \<^verbatim>\<open>bool\<close> it returns.\<close>

definition i2cScan :: "(byte \<Rightarrow> byte) \<Rightarrow> event list \<times> bool" where
  "i2cScan bus =
     (let resultStr = strncpy ''i2c device(s) found at: '' 128
      in case i2cScan_for bus 1 resultStr 0 of
           (evs, LoopReturn r) \<Rightarrow> (evs, r)
         | (evs, LoopDone resultStr' nDevices) \<Rightarrow>
             if nDevices = 0 then
               (let resultStr'' = snprintf 128 ''No I2C devices found''
                in (evs @ [LogInfo resultStr'' []], False))
             else (evs @ [LogInfo resultStr' []], True))"

text \<open>Every caller in the sketch drops the returned value.\<close>

definition call_i2cScan :: "(byte \<Rightarrow> byte) \<Rightarrow> globals \<Rightarrow> globals" where
  "call_i2cScan bus s = emits (fst (i2cScan bus)) s"

subsection \<open>Device bring-up blocks\<close>

text \<open>Lines 71-80 of \<^verbatim>\<open>setup\<close> and, word for word, lines 176-185 of \<^verbatim>\<open>loop\<close>.\<close>

definition init_LIS3DH :: "bool \<Rightarrow> globals \<Rightarrow> globals" where
  "init_LIS3DH setupSuccess s =
     (let s1 = emit (AccelSetup RATE_100_HZ setupSuccess) s
      in if setupSuccess
         then (logInfo ''LIS3DH Initialized successfully'' [] s1)\<lparr>sensorOnlineLIS3DH := True\<rparr>
         else logInfo ''LIS3DH failed initialization'' [] s1)"

text \<open>Lines 82-87 of \<^verbatim>\<open>setup\<close> and lines 187-192 of \<^verbatim>\<open>loop\<close>.\<close>

definition init_TOF :: "int \<Rightarrow> globals \<Rightarrow> globals" where
  "init_TOF status s =
     (let s1 = emit (TofBegin status) s
      in if status = 0
         then (logInfo ''TOF Sensor Initialized successfully'' [] s1)\<lparr>sensorOnlineTOF := True\<rparr>
         else logInfo ''TOF Sensor failed initialization'' [] s1)"

text \<open>
  Lines 89-107. \<open>get1\<close> and \<open>get2\<close> are the bytes the two \<^verbatim>\<open>fram.get\<close> calls leave in
  \<^verbatim>\<open>tempVersion\<close>; the second call is made only on a mismatch.
\<close>

definition init_FRAM :: "byte \<Rightarrow> byte \<Rightarrow> globals \<Rightarrow> globals" where
  "init_FRAM get1 get2 s =
     (let s1 = emit FramBegin s;
          tempVersion = get1;
          s2 = emit (FramGet versionAddr tempVersion) s1
      in if uint tempVersion \<noteq> FRAMversionNumber then
           (let s3 = logInfo ''FRAM Module initializing version %i'' [FRAMversionNumber] s2;
                s4 = emit FramErase s3;
                s5 = emit (FramPut versionAddr FRAMversionNumber) s4;
                tempVersion' = get2;
                s6 = emit (FramGet versionAddr tempVersion') s5
            in if uint tempVersion' \<noteq> FRAMversionNumber then
                 logInfo ''FRAM test failed, expected %i and found %i''
                   [FRAMversionNumber, uint tempVersion'] (s6\<lparr>carrierOnline := False\<rparr>)
               else s6\<lparr>carrierOnline := True\<rparr>)
         else logInfo ''FRAM Module loaded successfully'' [] (s2\<lparr>carrierOnline := True\<rparr>))"

text \<open>Lines 109-118.\<close>

definition init_AB1805 :: "bool \<Rightarrow> globals \<Rightarrow> globals" where
  "init_AB1805 detected s =
     (let s1 = emit (Ab1805Setup D8) s;
          s2 = emit (Ab1805SetWDT WATCHDOG_MAX_SECONDS) s1;
          s3 = emit (Ab1805DetectChip detected) s2
      in if detected then logInfo ''AB1805 detected'' [] s3
         else (let s4 = logInfo ''AB1805 Failed to Initialize'' [] s3
               in if carrierOnline s4 then s4\<lparr>carrierOnline := False\<rparr> else s4))"

subsection \<open>\<^verbatim>\<open>setup\<close> (lines 58-131)\<close>

record setup_env =
  setup_bus :: "byte \<Rightarrow> byte"
  setup_accel :: bool
  setup_tof :: int
  setup_get1 :: byte
  setup_get2 :: byte
  setup_detect :: bool

definition setup_fn :: "setup_env \<Rightarrow> globals \<Rightarrow> outcome" where
  "setup_fn env s0 =
     (let s1 = emit WireBegin s0;
          s2 = emit (PinMode intPin INPUT) s1;
          s3 = emit (PinMode disableModule OUTPUT) s2;
          s4 = emit (DigitalWrite disableModule False) s3;
          s5 = emit (Delay 1000) s4;
          s6 = call_i2cScan (setup_bus env) s5;
          s7 = init_LIS3DH (setup_accel env) s6;
          s8 = init_TOF (setup_tof env) s7;
          s9 = init_FRAM (setup_get1 env) (setup_get2 env) s8;
          s10 = init_AB1805 (setup_detect env) s9
      in if sensorOnlineLIS3DH s10 \<and> sensorOnlineTOF s10 \<and> carrierOnline s10 then
           (let s11 = logInfo ''Initialization Complete all devices on-line'' [] s10;
                s12 = emit (Delay 500) s11;
                s13 = logInfo ''Starting a running sample run'' [] s12
            in Returned (logInfo ''*****************************'' [] s13))
         else Halted (logInfo ''Errors in Initialization - Stopping'' [] s10))"

subsection \<open>\<^verbatim>\<open>loop\<close> (lines 134-203)\<close>

text \<open>
  \<open>loop_millis1\<close> and \<open>loop_millis2\<close> are the two readings of \<^verbatim>\<open>millis()\<close> (lines 136 and
  137). \<open>loop_ready\<close> lists the answers to the successive \<^verbatim>\<open>checkForDataReady()\<close> calls;
  a sensor whose answers run out without a \<open>True\<close> never becomes ready.
\<close>

record loop_env =
  loop_millis1 :: ulong
  loop_millis2 :: ulong
  loop_ready :: "bool list"
  loop_distance :: int
  loop_sample :: "(int \<times> int \<times> int) option"
  loop_bus1 :: "byte \<Rightarrow> byte"
  loop_bus2 :: "byte \<Rightarrow> byte"
  loop_bus3 :: "byte \<Rightarrow> byte"
  loop_detect :: bool
  loop_accel :: bool
  loop_tof :: int

text \<open>Lines 141-144: \<^verbatim>\<open>while (!distanceSensor.checkForDataReady()) delay(1);\<close>\<close>

fun waitDataReady :: "bool list \<Rightarrow> globals \<Rightarrow> bool \<times> globals" where
  "waitDataReady [] s = (False, s)"
| "waitDataReady (ready # answers) s =
     (let s1 = emit (TofCheckForDataReady ready) s
      in if ready then (True, s1) else waitDataReady answers (emit (Delay 1) s1))"

text \<open>Lines 139-149.\<close>

definition sample_TOF :: "loop_env \<Rightarrow> globals \<Rightarrow> outcome" where
  "sample_TOF env s =
     (let s1 = emit TofStartRanging s
      in case waitDataReady (loop_ready env) s1 of
           (False, s2) \<Rightarrow> Hung s2
         | (True, s2) \<Rightarrow>
             (let distance = loop_distance env;
                  s3 = emit (TofGetDistance distance) s2;
                  s4 = emit TofClearInterrupt s3;
                  s5 = emit TofStopRanging s4
              in Returned (logInfo ''Distance measured = %i'' [distance] s5)))"

text \<open>Lines 151-159.\<close>

definition sample_LIS3DH :: "loop_env \<Rightarrow> globals \<Rightarrow> globals" where
  "sample_LIS3DH env s =
     (let s1 = emit (AccelGetSample (loop_sample env)) s
      in case loop_sample env of
           Some (x, y, z) \<Rightarrow> logInfo ''%d,%d,%d'' [x, y, z] s1
         | None \<Rightarrow> emit (SerialPrintln ''no sample'') s1)"

text \<open>Lines 136-160.\<close>

definition sample_round :: "loop_env \<Rightarrow> globals \<Rightarrow> outcome" where
  "sample_round env s =
     (if loop_millis1 env - lastSampleTimestamp s > sampleRateMillis s then
        (let s1 = s\<lparr>lastSampleTimestamp := loop_millis2 env\<rparr>
         in case (if sensorOnlineTOF s1 then sample_TOF env s1 else Returned s1) of
              Returned s2 \<Rightarrow>
                Returned (if sensorOnlineLIS3DH s2 then sample_LIS3DH env s2 else s2)
            | Halted s2 \<Rightarrow> Halted s2
            | Hung s2 \<Rightarrow> Hung s2)
      else Returned s)"

text \<open>Lines 163-199: the body of \<^verbatim>\<open>if (powerCycleOnce)\<close>.\<close>

definition powerCycleTest :: "loop_env \<Rightarrow> globals \<Rightarrow> outcome" where
  "powerCycleTest env s0 =
     (let s1 = s0\<lparr>powerCycleOnce := False\<rparr>;
          s2 = logInfo ''Devices on line with power'' [] s1;
          s3 = call_i2cScan (loop_bus1 env) s2;
          s4 = logInfo ''Powering down the sensor board'' [] s3;
          s5 = emit (DigitalWrite disableModule True) s4;
          s6 = emit (Delay 1000) s5;
          s7 = logInfo ''Devices on-line without power'' [] s6;
          s8 = call_i2cScan (loop_bus2 env) s7;
          s9 = emit (Ab1805DetectChip (loop_detect env)) s8;
          s10 = (if loop_detect env then logInfo ''AB1805 detected'' [] s9 else s9);
          s11 = logInfo ''Bringing sensors back on-line'' [] s10;
          s12 = emit (DigitalWrite disableModule False) s11;
          s13 = logInfo ''Devices on-line with power restored'' [] s12;
          s14 = call_i2cScan (loop_bus3 env) s13;
          s15 = init_LIS3DH (loop_accel env) s14;
          s16 = init_TOF (loop_tof env) s15
      in if sensorOnlineLIS3DH s16 \<and> sensorOnlineTOF s16 then
           Returned (logInfo ''Power on test complete - measuring resumed'' [] s16)
         else Halted (logInfo ''Power on test failed - stopping'' [] s16))"

definition loop :: "loop_env \<Rightarrow> globals \<Rightarrow> outcome" where
  "loop env s =
     (case sample_round env s of
        Returned s1 \<Rightarrow> (if powerCycleOnce s1 then powerCycleTest env s1 else Returned s1)
      | Halted s1 \<Rightarrow> Halted s1
      | Hung s1 \<Rightarrow> Hung s1)"

subsection \<open>The process: \<^verbatim>\<open>setup\<close> once, then \<^verbatim>\<open>loop\<close> again and again\<close>

fun run :: "loop_env list \<Rightarrow> globals \<Rightarrow> outcome" where
  "run [] s = Returned s"
| "run (env # envs) s =
     (case loop env s of
        Returned s1 \<Rightarrow> run envs s1
      | Halted s1 \<Rightarrow> Halted s1
      | Hung s1 \<Rightarrow> Hung s1)"

definition boot :: "setup_env \<Rightarrow> loop_env list \<Rightarrow> outcome" where
  "boot senv lenvs =
     (case setup_fn senv initial of
        Returned s \<Rightarrow> run lenvs s
      | Halted s \<Rightarrow> Halted s
      | Hung s \<Rightarrow> Hung s)"

subsection \<open>Reading a trace\<close>

text \<open>The addresses that acknowledged, in the order they were probed.\<close>

fun ackedAddr :: "event \<Rightarrow> byte list" where
  "ackedAddr (WireProbe a r) = (if r = 0 then [a] else [])"
| "ackedAddr e = []"

definition acked :: "event list \<Rightarrow> byte list" where
  "acked evs = concat (map ackedAddr evs)"

text \<open>One entry of the device list, and the line logged for a bus fault.\<close>

definition fmtAddr :: "byte \<Rightarrow> string" where
  "fmtAddr a = fmt02X (unat a) @ '' ''"

definition errLine :: "byte \<Rightarrow> event" where
  "errLine a = LogInfo (''Unknown error at address '' @ fmt02X (unat a)) []"

definition foundLine :: "byte list \<Rightarrow> event" where
  "foundLine as = LogInfo (''i2c device(s) found at: '' @ concat (map fmtAddr as)) []"

definition noneLine :: event where
  "noneLine = LogInfo ''No I2C devices found'' []"

fun isFault :: "event \<Rightarrow> bool" where
  "isFault (WireProbe a r) = (r = 4)"
| "isFault e = False"

definition faulted :: "event list \<Rightarrow> bool" where
  "faulted evs = list_ex isFault evs"

text \<open>Calls that change the non-volatile store, and all calls to it.\<close>

fun isFramWrite :: "event \<Rightarrow> bool" where
  "isFramWrite FramErase = True"
| "isFramWrite (FramPut a v) = True"
| "isFramWrite e = False"

fun isFramCall :: "event \<Rightarrow> bool" where
  "isFramCall FramBegin = True"
| "isFramCall (FramGet a v) = True"
| "isFramCall FramErase = True"
| "isFramCall (FramPut a v) = True"
| "isFramCall e = False"

text \<open>Calls that take a reading from a sensor.\<close>

fun isSampleCall :: "event \<Rightarrow> bool" where
  "isSampleCall TofStartRanging = True"
| "isSampleCall (TofCheckForDataReady r) = True"
| "isSampleCall (TofGetDistance d) = True"
| "isSampleCall TofClearInterrupt = True"
| "isSampleCall TofStopRanging = True"
| "isSampleCall (AccelGetSample x) = True"
| "isSampleCall e = False"

text \<open>
  The self-test body makes two calls that nothing else in the sketch makes: its first
  log line (line 164) and the write that removes power from the sensor board (line 167).
\<close>

definition selfTestStarts :: "event list \<Rightarrow> nat" where
  "selfTestStarts tr = length (filter (\<lambda>e. e = LogInfo ''Devices on line with power'' []) tr)"

definition powerDowns :: "event list \<Rightarrow> nat" where
  "powerDowns tr = length (filter (\<lambda>e. e = DigitalWrite disableModule True) tr)"

subsection \<open>Concrete buses and environments\<close>

text \<open>Status 2 is the plain no-acknowledge answer, status 4 the bus fault.\<close>

definition bus_empty :: "byte \<Rightarrow> byte" where
  "bus_empty a = 2"

definition bus_stuck :: "byte \<Rightarrow> byte" where
  "bus_stuck a = 4"

definition bus_crowded :: "byte \<Rightarrow> byte" where
  "bus_crowded a = 0"

definition bus_sensors :: "byte \<Rightarrow> byte" where
  "bus_sensors a = (if a = 0x19 \<or> a = 0x29 \<or> a = 0x50 \<or> a = 0x69 then 0 else 2)"

definition bus_fault_at_30 :: "byte \<Rightarrow> byte" where
  "bus_fault_at_30 a = (if a = 0x29 then 0 else if a = 0x30 then 4 else 2)"

definition env_all_good :: setup_env where
  "env_all_good = \<lparr> setup_bus = bus_sensors, setup_accel = True, setup_tof = 0,
                    setup_get1 = 42, setup_get2 = 42, setup_detect = True \<rparr>"

definition env_fresh_fram :: setup_env where
  "env_fresh_fram = \<lparr> setup_bus = bus_sensors, setup_accel = True, setup_tof = 0,
                      setup_get1 = 41, setup_get2 = 42, setup_detect = True \<rparr>"

definition env_no_rtc :: setup_env where
  "env_no_rtc = \<lparr> setup_bus = bus_sensors, setup_accel = True, setup_tof = 0,
                  setup_get1 = 42, setup_get2 = 42, setup_detect = False \<rparr>"

text \<open>A pass of \<^verbatim>\<open>loop\<close> in which every driver answers well, at clock reading \<open>t\<close>.\<close>

definition lenv_good :: "ulong \<Rightarrow> loop_env" where
  "lenv_good t = \<lparr> loop_millis1 = t, loop_millis2 = t, loop_ready = [False, True],
                   loop_distance = 350, loop_sample = Some (1, 2, 3),
                   loop_bus1 = bus_sensors, loop_bus2 = bus_empty, loop_bus3 = bus_sensors,
                   loop_detect = True, loop_accel = True, loop_tof = 0 \<rparr>"

text \<open>The same pass, but the accelerometer fails to come back after the power cycle.\<close>

definition lenv_accel_lost :: "ulong \<Rightarrow> loop_env" where
  "lenv_accel_lost t = (lenv_good t)\<lparr> loop_bus3 := bus_empty, loop_accel := False \<rparr>"

text \<open>The globals after a start-up in which every device answered.\<close>

definition after_good_setup :: globals where
  "after_good_setup = outcome_state (setup_fn env_all_good initial)"

section \<open>Properties\<close>

subsection \<open>Formatting facts\<close>

lemma length_hexStr_lt16: "n < 16 \<Longrightarrow> length (hexStr n) = 1"
  by simp

lemma length_hexStr_lt256: "16 \<le> n \<Longrightarrow> n < 256 \<Longrightarrow> length (hexStr n) = 2"
proof -
  assume a: "16 \<le> n" and b: "n < 256"
  have "n div 16 < 16" using b by simp
  then have "length (hexStr (n div 16)) = 1" by (rule length_hexStr_lt16)
  moreover have "hexStr n = hexStr (n div 16) @ [hexDigit (n mod 16)]"
    using a by (subst hexStr.simps) simp
  ultimately show ?thesis by simp
qed

lemma length_fmt02X: "n < 256 \<Longrightarrow> length (fmt02X n) = 2"
proof (cases "n < 16")
  case True
  then show ?thesis
    using length_hexStr_lt16 [of n] by (simp add: fmt02X_def Let_def del: hexStr.simps)
next
  case False
  assume "n < 256"
  with False show ?thesis
    using length_hexStr_lt256 [of n] by (simp add: fmt02X_def Let_def del: hexStr.simps)
qed

lemma unat_byte_lt: "unat (a :: byte) < 256"
  using unsigned_less [of a, where 'a = nat] by simp

lemma tempString_eq: "snprintf 4 (fmt02X (unat (a::byte)) @ '' '') = fmtAddr a"
  by (simp add: snprintf_def fmtAddr_def length_fmt02X unat_byte_lt)

lemma strncat_fmtAddr: "strncat r (fmtAddr a) 4 = r @ fmtAddr a"
  by (simp add: strncat_def fmtAddr_def length_fmt02X unat_byte_lt)

lemma errStr_eq:
  "snprintf 128 (''Unknown error at address '' @ fmt02X (unat (a::byte))) =
     ''Unknown error at address '' @ fmt02X (unat a)"
  by (simp add: snprintf_def length_fmt02X unat_byte_lt)

subsection \<open>Byte arithmetic below 127\<close>

lemma byte_succ_le: "(a::byte) < 127 \<Longrightarrow> a + 1 \<le> c \<Longrightarrow> a < c"
  by (simp add: word_less_nat_alt word_le_nat_alt unat_word_ariths)

lemma byte_succ_cases: "(a::byte) < 127 \<Longrightarrow> a \<le> c \<Longrightarrow> c = a \<or> a + 1 \<le> c"
  by (auto simp add: word_less_nat_alt word_le_nat_alt unat_word_ariths word_unat_eq_iff)

lemma acked_simps [simp]:
  "acked [] = []"
  "acked (WireProbe a x # evs) = (if x = 0 then a # acked evs else acked evs)"
  "acked (LogInfo s args # evs) = acked evs"
  "acked (xs @ ys) = acked xs @ acked ys"
  by (simp_all add: acked_def)

subsection \<open>The scan loop\<close>

lemma i2cScan_for_LoopReturn:
  "i2cScan_for bus a r n = (evs, LoopReturn ret) \<Longrightarrow> n < 9 \<Longrightarrow>
     ret = False \<and>
     (\<exists>pre b. evs = pre @ [WireProbe b 4, errLine b] \<and> a \<le> b \<and> b < 127 \<and> bus b = 4 \<and>
        (\<forall>e\<in>set pre. \<exists>c. e = WireProbe c (bus c) \<and> a \<le> c \<and> c < b \<and> bus c \<noteq> 4) \<and>
        n + int (length (acked pre)) < 9)"
proof (induction bus a r n arbitrary: evs rule: i2cScan_for.induct)
  case (1 bus address resultStr nDevices)
  note step = "1.prems"(1) [unfolded i2cScan_for.simps [of bus address resultStr nDevices] errStr_eq]
  show ?case
  proof (cases "address < 127")
    case False
    with step show ?thesis by simp
  next
    case lt: True
    show ?thesis
    proof (cases "bus address = 0")
      case ack: True
      from step lt ack have ne: "nDevices + 1 \<noteq> 9"
        by (auto simp: Let_def split: if_splits)
      obtain evs' ex' where rec:
        "i2cScan_for bus (address + 1) (strncat resultStr (snprintf 4 (fmt02X (unat address) @ '' '')) 4) (nDevices + 1) = (evs', ex')"
        by (cases "i2cScan_for bus (address + 1) (strncat resultStr (snprintf 4 (fmt02X (unat address) @ '' '')) 4) (nDevices + 1)")
      from step lt ack ne rec have evs: "evs = WireProbe address 0 # evs'" and ex': "ex' = LoopReturn ret"
        by (auto simp: Let_def)
      have n9: "nDevices + 1 < 9" using ne "1.prems"(2) by simp
      from "1.IH"(1) [OF lt refl refl ack refl refl refl ne rec [unfolded ex'] n9]
      obtain pre b where ih: "ret = False" "evs' = pre @ [WireProbe b 4, errLine b]"
          "address + 1 \<le> b" "b < 127" "bus b = 4"
          "\<forall>e\<in>set pre. \<exists>c. e = WireProbe c (bus c) \<and> address + 1 \<le> c \<and> c < b \<and> bus c \<noteq> 4"
          "nDevices + 1 + int (length (acked pre)) < 9"
        by blast
      have "evs = (WireProbe address 0 # pre) @ [WireProbe b 4, errLine b]"
        using evs ih(2) by simp
      moreover have "\<forall>e\<in>set (WireProbe address 0 # pre). \<exists>c. e = WireProbe c (bus c) \<and> address \<le> c \<and> c < b \<and> bus c \<noteq> 4"
        using ih(6) ih(3) lt ack byte_succ_le [OF lt] by (auto simp: less_imp_le)
      moreover have "nDevices + int (length (acked (WireProbe address 0 # pre))) < 9"
        using ih(7) by simp
      moreover have "address \<le> b" using byte_succ_le [OF lt ih(3)] by simp
      ultimately show ?thesis using ih(1,4,5) by blast
    next
      case nack: False
      show ?thesis
      proof (cases "bus address = 4")
        case True
        with step lt nack have "evs = [] @ [WireProbe address 4, errLine address]" "ret = False"
          by (auto simp: Let_def errLine_def)
        then show ?thesis using lt True "1.prems"(2) by fastforce
      next
        case other: False
        obtain evs' ex' where rec:
          "i2cScan_for bus (address + 1) resultStr nDevices = (evs', ex')"
          by (cases "i2cScan_for bus (address + 1) resultStr nDevices")
        from step lt nack other rec have evs: "evs = WireProbe address (bus address) # evs'" and ex': "ex' = LoopReturn ret"
          by (auto simp: Let_def)
        from "1.IH"(2) [OF lt refl refl nack other rec [unfolded ex'] "1.prems"(2)]
        obtain pre b where ih: "ret = False" "evs' = pre @ [WireProbe b 4, errLine b]"
            "address + 1 \<le> b" "b < 127" "bus b = 4"
            "\<forall>e\<in>set pre. \<exists>c. e = WireProbe c (bus c) \<and> address + 1 \<le> c \<and> c < b \<and> bus c \<noteq> 4"
            "nDevices + int (length (acked pre)) < 9"
          by blast
        have "evs = (WireProbe address (bus address) # pre) @ [WireProbe b 4, errLine b]"
          using evs ih(2) by simp
        moreover have "\<forall>e\<in>set (WireProbe address (bus address) # pre). \<exists>c. e = WireProbe c (bus c) \<and> address \<le> c \<and> c < b \<and> bus c \<noteq> 4"
          using ih(6) ih(3) lt other byte_succ_le [OF lt] by (auto simp: less_imp_le)
        moreover have "nDevices + int (length (acked (WireProbe address (bus address) # pre))) < 9"
          using ih(7) nack by simp
        moreover have "address \<le> b" using byte_succ_le [OF lt ih(3)] by simp
        ultimately show ?thesis using ih(1,4,5) by blast
      qed
    qed
  qed
qed

lemma i2cScan_for_LoopDone:
  "i2cScan_for bus a r n = (evs, LoopDone r' n') \<Longrightarrow> n < 9 \<Longrightarrow>
     r' = r @ concat (map fmtAddr (acked evs)) \<and>
     n' = n + int (length (acked evs)) \<and> n' \<le> 9 \<and>
     (\<forall>e\<in>set evs. \<exists>c. e = WireProbe c (bus c) \<and> a \<le> c \<and> c < 127 \<and> bus c \<noteq> 4) \<and>
     (n' = 9 \<longrightarrow> (\<exists>pre b. evs = pre @ [WireProbe b 0])) \<and>
     (n' \<noteq> 9 \<longrightarrow> (\<forall>c. a \<le> c \<and> c < 127 \<longrightarrow> WireProbe c (bus c) \<in> set evs))"
proof (induction bus a r n arbitrary: evs rule: i2cScan_for.induct)
  case (1 bus address resultStr nDevices)
  note step = "1.prems"(1) [unfolded i2cScan_for.simps [of bus address resultStr nDevices]]
  have cat: "strncat resultStr (snprintf 4 (fmt02X (unat address) @ '' '')) 4 = resultStr @ fmtAddr address"
    by (simp add: tempString_eq strncat_fmtAddr)
  show ?case
  proof (cases "address < 127")
    case False
    with step "1.prems"(2) show ?thesis by auto
  next
    case lt: True
    show ?thesis
    proof (cases "bus address = 0")
      case ack: True
      show ?thesis
      proof (cases "nDevices + 1 = 9")
        case True
        with step lt ack have "evs = [] @ [WireProbe address 0]"
            "r' = resultStr @ fmtAddr address" "n' = nDevices + 1"
          by (auto simp: Let_def cat)
        then show ?thesis using True lt ack by auto
      next
        case ne: False
        obtain evs' ex' where rec:
          "i2cScan_for bus (address + 1) (strncat resultStr (snprintf 4 (fmt02X (unat address) @ '' '')) 4) (nDevices + 1) = (evs', ex')"
          by (cases "i2cScan_for bus (address + 1) (strncat resultStr (snprintf 4 (fmt02X (unat address) @ '' '')) 4) (nDevices + 1)")
        from step lt ack ne rec have evs: "evs = WireProbe address 0 # evs'" and ex': "ex' = LoopDone r' n'"
          by (auto simp: Let_def)
        have n9: "nDevices + 1 < 9" using ne "1.prems"(2) by simp
        note ih = "1.IH"(1) [OF lt refl refl ack refl refl refl ne rec [unfolded ex'] n9,
                             unfolded cat]
        have a1: "r' = resultStr @ concat (map fmtAddr (acked evs))"
          using ih evs by simp
        have a2: "n' = nDevices + int (length (acked evs))" "n' \<le> 9"
          using ih evs by simp_all
        have a3: "\<forall>e\<in>set evs. \<exists>c. e = WireProbe c (bus c) \<and> address \<le> c \<and> c < 127 \<and> bus c \<noteq> 4"
          using ih evs lt ack byte_succ_le [OF lt] by (auto simp: less_imp_le)
        have a4: "n' = 9 \<longrightarrow> (\<exists>pre b. evs = pre @ [WireProbe b 0])"
        proof
          assume "n' = 9"
          with ih obtain pre b where "evs' = pre @ [WireProbe b 0]" by blast
          then have "evs = (WireProbe address 0 # pre) @ [WireProbe b 0]" using evs by simp
          then show "\<exists>pre b. evs = pre @ [WireProbe b 0]" by blast
        qed
        have a5: "n' \<noteq> 9 \<longrightarrow> (\<forall>c. address \<le> c \<and> c < 127 \<longrightarrow> WireProbe c (bus c) \<in> set evs)"
          using ih evs ack byte_succ_cases [OF lt] by auto
        from a1 a2 a3 a4 a5 show ?thesis by blast
      qed
    next
      case nack: False
      show ?thesis
      proof (cases "bus address = 4")
        case True
        with step lt nack show ?thesis by (simp add: Let_def)
      next
        case other: False
        obtain evs' ex' where rec:
          "i2cScan_for bus (address + 1) resultStr nDevices = (evs', ex')"
          by (cases "i2cScan_for bus (address + 1) resultStr nDevices")
        from step lt nack other rec have evs: "evs = WireProbe address (bus address) # evs'" and ex': "ex' = LoopDone r' n'"
          by (auto simp: Let_def)
        note ih = "1.IH"(2) [OF lt refl refl nack other rec [unfolded ex'] "1.prems"(2)]
        have a1: "r' = resultStr @ concat (map fmtAddr (acked evs))"
          using ih evs nack by simp
        have a2: "n' = nDevices + int (length (acked evs))" "n' \<le> 9"
          using ih evs nack by simp_all
        have a3: "\<forall>e\<in>set evs. \<exists>c. e = WireProbe c (bus c) \<and> address \<le> c \<and> c < 127 \<and> bus c \<noteq> 4"
          using ih evs lt other byte_succ_le [OF lt] by (auto simp: less_imp_le)
        have a4: "n' = 9 \<longrightarrow> (\<exists>pre b. evs = pre @ [WireProbe b 0])"
        proof
          assume "n' = 9"
          with ih obtain pre b where "evs' = pre @ [WireProbe b 0]" by blast
          then have "evs = (WireProbe address (bus address) # pre) @ [WireProbe b 0]" using evs by simp
          then show "\<exists>pre b. evs = pre @ [WireProbe b 0]" by blast
        qed
        have a5: "n' \<noteq> 9 \<longrightarrow> (\<forall>c. address \<le> c \<and> c < 127 \<longrightarrow> WireProbe c (bus c) \<in> set evs)"
          using ih evs byte_succ_cases [OF lt] by auto
        from a1 a2 a3 a4 a5 show ?thesis by blast
      qed
    qed
  qed
qed

subsection \<open>The shape of a whole scan\<close>

lemma header_eq: "strncpy ''i2c device(s) found at: '' 128 = ''i2c device(s) found at: ''"
  by (simp add: strncpy_def)

lemma none_eq: "snprintf 128 ''No I2C devices found'' = ''No I2C devices found''"
  by (simp add: snprintf_def)

lemma i2cScan_fault_shape:
  assumes "i2cScan_for bus 1 ''i2c device(s) found at: '' 0 = (evs, LoopReturn ret)"
  shows "\<exists>pre b. i2cScan bus = (pre @ [WireProbe b 4, errLine b], False) \<and> bus b = 4 \<and>
           (\<forall>e\<in>set pre. \<exists>c. e = WireProbe c (bus c) \<and> c < b \<and> bus c \<noteq> 4) \<and>
           length (acked pre) < 9"
proof -
  from i2cScan_for_LoopReturn [OF assms]
  obtain pre b where r: "ret = False" "evs = pre @ [WireProbe b 4, errLine b]" "bus b = 4"
      "\<forall>e\<in>set pre. \<exists>c. e = WireProbe c (bus c) \<and> 1 \<le> c \<and> c < b \<and> bus c \<noteq> 4"
      "0 + int (length (acked pre)) < 9"
    by auto
  have "i2cScan bus = (pre @ [WireProbe b 4, errLine b], False)"
    using assms r(1,2) by (simp add: i2cScan_def header_eq)
  moreover have "\<forall>e\<in>set pre. \<exists>c. e = WireProbe c (bus c) \<and> c < b \<and> bus c \<noteq> 4"
    using r(4) by blast
  moreover have "length (acked pre) < 9" using r(5) by simp
  ultimately show ?thesis using r(3) by blast
qed

lemma i2cScan_done_shape:
  assumes "i2cScan_for bus 1 ''i2c device(s) found at: '' 0 = (evs, LoopDone r' n')"
  shows "i2cScan bus = (evs @ [if acked evs = [] then noneLine else foundLine (acked evs)],
                        acked evs \<noteq> []) \<and>
         (\<forall>e\<in>set evs. \<exists>c. e = WireProbe c (bus c) \<and> bus c \<noteq> 4) \<and>
         length (acked evs) \<le> 9 \<and>
         (length (acked evs) = 9 \<longrightarrow> (\<exists>pre b. evs = pre @ [WireProbe b 0])) \<and>
         (length (acked evs) \<noteq> 9 \<longrightarrow> (\<forall>c. 1 \<le> c \<and> c < 127 \<longrightarrow> WireProbe c (bus c) \<in> set evs))"
proof -
  from i2cScan_for_LoopDone [OF assms]
  have r: "r' = ''i2c device(s) found at: '' @ concat (map fmtAddr (acked evs))"
      "n' = int (length (acked evs))" "n' \<le> 9"
      "\<forall>e\<in>set evs. \<exists>c. e = WireProbe c (bus c) \<and> 1 \<le> c \<and> c < 127 \<and> bus c \<noteq> 4"
      "n' = 9 \<longrightarrow> (\<exists>pre b. evs = pre @ [WireProbe b 0])"
      "n' \<noteq> 9 \<longrightarrow> (\<forall>c. 1 \<le> c \<and> c < 127 \<longrightarrow> WireProbe c (bus c) \<in> set evs)"
    by simp_all
  have "i2cScan bus = (evs @ [if acked evs = [] then noneLine else foundLine (acked evs)],
                       acked evs \<noteq> [])"
    using assms r(1,2)
    by (simp add: i2cScan_def header_eq none_eq noneLine_def foundLine_def del: append.simps)
  moreover have "\<forall>e\<in>set evs. \<exists>c. e = WireProbe c (bus c) \<and> bus c \<noteq> 4"
    using r(4) by blast
  moreover have "length (acked evs) \<le> 9" using r(2,3) by simp
  moreover have "length (acked evs) = 9 \<longrightarrow> (\<exists>pre b. evs = pre @ [WireProbe b 0])"
    using r(2,5) by simp
  moreover have "length (acked evs) \<noteq> 9 \<longrightarrow> (\<forall>c. 1 \<le> c \<and> c < 127 \<longrightarrow> WireProbe c (bus c) \<in> set evs)"
    using r(2,6) by simp
  ultimately show ?thesis by blast
qed

lemma i2cScan_cases:
  obtains (fault) pre b where "i2cScan bus = (pre @ [WireProbe b 4, errLine b], False)"
      "bus b = 4" "\<forall>e\<in>set pre. \<exists>c. e = WireProbe c (bus c) \<and> c < b \<and> bus c \<noteq> 4"
      "length (acked pre) < 9"
  | (complete) evs where
      "i2cScan bus = (evs @ [if acked evs = [] then noneLine else foundLine (acked evs)], acked evs \<noteq> [])"
      "\<forall>e\<in>set evs. \<exists>c. e = WireProbe c (bus c) \<and> bus c \<noteq> 4"
      "length (acked evs) \<le> 9"
      "length (acked evs) = 9 \<longrightarrow> (\<exists>pre b. evs = pre @ [WireProbe b 0])"
      "length (acked evs) \<noteq> 9 \<longrightarrow> (\<forall>c. 1 \<le> c \<and> c < 127 \<longrightarrow> WireProbe c (bus c) \<in> set evs)"
proof -
  obtain evs ex where e: "i2cScan_for bus 1 ''i2c device(s) found at: '' 0 = (evs, ex)"
    by (cases "i2cScan_for bus 1 ''i2c device(s) found at: '' 0")
  show thesis
  proof (cases ex)
    case (LoopDone r' n')
    from i2cScan_done_shape [OF e [unfolded LoopDone]] show thesis by (intro complete) blast+
  next
    case (LoopReturn ret)
    from i2cScan_fault_shape [OF e [unfolded LoopReturn]] show thesis using fault by blast
  qed
qed

lemma i2cScan_events:
  assumes "e \<in> set (fst (i2cScan bus))"
  shows "(\<exists>c r. e = WireProbe c r) \<or> (\<exists>b. e = errLine b) \<or> e = noneLine \<or> (\<exists>as. e = foundLine as)"
proof (cases bus rule: i2cScan_cases)
  case (fault pre b)
  with assms show ?thesis by auto
next
  case (complete evs)
  with assms show ?thesis by (auto split: if_splits)
qed

lemma faulted_iff: "faulted evs \<longleftrightarrow> (\<exists>a. WireProbe a 4 \<in> set evs)"
proof
  assume "faulted evs"
  then obtain e where e: "e \<in> set evs" "isFault e" by (auto simp: faulted_def list_ex_iff)
  from e(2) obtain a where "e = WireProbe a 4" by (cases e) auto
  with e(1) show "\<exists>a. WireProbe a 4 \<in> set evs" by auto
next
  assume "\<exists>a. WireProbe a 4 \<in> set evs"
  then show "faulted evs" by (force simp: faulted_def list_ex_iff)
qed

lemma errLine_not_noneLine: "errLine b \<noteq> noneLine"
  by (simp add: errLine_def noneLine_def)

text \<open>
  In terms of the bus alone: if some address in range would answer with a bus fault, the
  scan either aborts on a fault or has already stopped at its ninth acknowledgement.
\<close>

lemma i2cScan_fault_reached:
  assumes "1 \<le> a" "a < 127" "bus a = 4"
  shows "faulted (fst (i2cScan bus)) \<or> length (acked (fst (i2cScan bus))) = 9"
proof (cases bus rule: i2cScan_cases)
  case (fault pre b)
  then show ?thesis by (auto simp: faulted_iff)
next
  case (complete evs)
  have a: "acked (fst (i2cScan bus)) = acked evs"
    using complete(1) by (simp add: noneLine_def foundLine_def)
  have "length (acked evs) = 9"
  proof (rule ccontr)
    assume "length (acked evs) \<noteq> 9"
    with complete(5) assms have "WireProbe a 4 \<in> set evs" by auto
    with complete(2) show False by force
  qed
  with a show ?thesis by simp
qed

subsection \<open>Claims about the bus scan\<close>

text \<open>
  C4. Whatever the bus answers, once a transaction of the scan returns the bus-fault
  status 4 for an address, that transaction is the last one of the scan: the only thing
  that follows it is the log line naming exactly that address (no device list is logged),
  every address probed before it is smaller and did not fault, and the scan returns false.
\<close>

theorem i2cScan_bus_fault_aborts:
  "WireProbe a 4 \<in> set (fst (i2cScan bus)) \<Longrightarrow>
     (\<exists>pre. fst (i2cScan bus) = pre @ [WireProbe a 4, errLine a] \<and>
            (\<forall>e\<in>set pre. \<exists>c. e = WireProbe c (bus c) \<and> c < a \<and> bus c \<noteq> 4)) \<and>
     \<not> snd (i2cScan bus)"
proof (cases bus rule: i2cScan_cases)
  case (fault pre b)
  assume "WireProbe a 4 \<in> set (fst (i2cScan bus))"
  with fault(1) have "WireProbe a 4 \<in> set pre \<or> a = b"
    by (auto simp: errLine_def)
  moreover have "WireProbe a 4 \<notin> set pre" using fault(3) by force
  ultimately have "a = b" by simp
  with fault show ?thesis by auto
next
  case (complete evs)
  assume "WireProbe a 4 \<in> set (fst (i2cScan bus))"
  with complete(1) have "WireProbe a 4 \<in> set evs"
    by (auto simp: noneLine_def foundLine_def split: if_splits)
  with complete(2) have False by force
  then show ?thesis ..
qed

theorem i2cScan_bus_fault_aborts_witness:
  "WireProbe 0x30 4 \<in> set (fst (i2cScan bus_fault_at_30)) \<and>
   last (fst (i2cScan bus_fault_at_30)) = errLine 0x30 \<and>
   \<not> snd (i2cScan bus_fault_at_30)"
proof -
  have h: "WireProbe 0x30 4 \<in> set (fst (i2cScan bus_fault_at_30))" by code_simp
  from i2cScan_bus_fault_aborts [OF h] h show ?thesis by auto
qed

text \<open>
  C5. Whatever the bus answers, a scan sees at most nine acknowledgements. When it returns
  true, the line it logs lists exactly the addresses that acknowledged, so at most nine.
  When nine addresses have acknowledged, the ninth acknowledgement is the last transaction
  of the scan and the device list is logged right after it. The scan does not stop
  earlier: with fewer than nine acknowledgements and no bus fault every address from 1
  to 126 is probed.
\<close>

theorem i2cScan_report_capped:
  "length (acked (fst (i2cScan bus))) \<le> 9 \<and>
   (snd (i2cScan bus) \<longrightarrow>
      (\<exists>evs. fst (i2cScan bus) = evs @ [foundLine (acked evs)] \<and>
             (\<forall>e\<in>set evs. \<exists>c. e = WireProbe c (bus c)))) \<and>
   (length (acked (fst (i2cScan bus))) = 9 \<longrightarrow>
      snd (i2cScan bus) \<and>
      (\<exists>pre b. fst (i2cScan bus) =
                 pre @ [WireProbe b 0, foundLine (acked (pre @ [WireProbe b 0]))])) \<and>
   (length (acked (fst (i2cScan bus))) \<noteq> 9 \<and> \<not> faulted (fst (i2cScan bus)) \<longrightarrow>
      (\<forall>c. 1 \<le> c \<and> c < 127 \<longrightarrow> WireProbe c (bus c) \<in> set (fst (i2cScan bus))))"
proof (cases bus rule: i2cScan_cases)
  case (fault pre b)
  have "faulted (fst (i2cScan bus))" using fault(1) by (auto simp: faulted_iff)
  moreover have "acked (fst (i2cScan bus)) = acked pre"
    using fault(1) by (simp add: errLine_def)
  ultimately show ?thesis using fault(1,4) by simp
next
  case (complete evs)
  have a: "acked (fst (i2cScan bus)) = acked evs"
    using complete(1) by (simp add: noneLine_def foundLine_def)
  have c1: "length (acked (fst (i2cScan bus))) \<le> 9" using a complete(3) by simp
  have c2: "snd (i2cScan bus) \<longrightarrow>
      (\<exists>evs. fst (i2cScan bus) = evs @ [foundLine (acked evs)] \<and>
             (\<forall>e\<in>set evs. \<exists>c. e = WireProbe c (bus c)))"
  proof
    assume "snd (i2cScan bus)"
    with complete(1) have "acked evs \<noteq> []" by simp
    with complete(1) have "fst (i2cScan bus) = evs @ [foundLine (acked evs)]" by simp
    moreover have "\<forall>e\<in>set evs. \<exists>c. e = WireProbe c (bus c)" using complete(2) by blast
    ultimately show "\<exists>evs. fst (i2cScan bus) = evs @ [foundLine (acked evs)] \<and>
             (\<forall>e\<in>set evs. \<exists>c. e = WireProbe c (bus c))" by blast
  qed
  have c3: "length (acked (fst (i2cScan bus))) = 9 \<longrightarrow>
      snd (i2cScan bus) \<and>
      (\<exists>pre b. fst (i2cScan bus) =
                 pre @ [WireProbe b 0, foundLine (acked (pre @ [WireProbe b 0]))])"
  proof
    assume n: "length (acked (fst (i2cScan bus))) = 9"
    then have ne: "acked evs \<noteq> []" using a by auto
    from n a complete(4) obtain pre b where pb: "evs = pre @ [WireProbe b 0]" by auto
    have "fst (i2cScan bus) = pre @ [WireProbe b 0, foundLine (acked (pre @ [WireProbe b 0]))]"
      using complete(1) ne pb by simp
    then show "snd (i2cScan bus) \<and>
      (\<exists>pre b. fst (i2cScan bus) =
                 pre @ [WireProbe b 0, foundLine (acked (pre @ [WireProbe b 0]))])"
      using complete(1) ne by auto
  qed
  have c4: "length (acked (fst (i2cScan bus))) \<noteq> 9 \<and> \<not> faulted (fst (i2cScan bus)) \<longrightarrow>
      (\<forall>c. 1 \<le> c \<and> c < 127 \<longrightarrow> WireProbe c (bus c) \<in> set (fst (i2cScan bus)))"
    using a complete(1,5) by auto
  from c1 c2 c3 c4 show ?thesis by blast
qed

theorem i2cScan_report_capped_witness:
  "snd (i2cScan bus_crowded) \<and>
   acked (fst (i2cScan bus_crowded)) = [1, 2, 3, 4, 5, 6, 7, 8, 9] \<and>
   (\<exists>pre b. fst (i2cScan bus_crowded) =
              pre @ [WireProbe b 0, foundLine (acked (pre @ [WireProbe b 0]))]) \<and>
   \<not> faulted (fst (i2cScan bus_empty)) \<and>
   WireProbe 126 2 \<in> set (fst (i2cScan bus_empty))"
proof -
  have h1: "acked (fst (i2cScan bus_crowded)) = [1, 2, 3, 4, 5, 6, 7, 8, 9]" by code_simp
  have h2: "\<not> faulted (fst (i2cScan bus_empty))" by code_simp
  have h3: "acked (fst (i2cScan bus_empty)) = []" by code_simp
  have h4: "(1::byte) \<le> 126 \<and> (126::byte) < 127" by simp
  have h5: "bus_empty 126 = 2" by (simp add: bus_empty_def)
  have l1: "length (acked (fst (i2cScan bus_crowded))) = 9" using h1 by simp
  have l2: "length (acked (fst (i2cScan bus_empty))) \<noteq> 9" using h3 by simp
  from i2cScan_report_capped [of bus_crowded] l1
  have a: "snd (i2cScan bus_crowded) \<and> (\<exists>pre b. fst (i2cScan bus_crowded) =
              pre @ [WireProbe b 0, foundLine (acked (pre @ [WireProbe b 0]))])"
    by blast
  from i2cScan_report_capped [of bus_empty] l2 h2
  have "\<forall>c. 1 \<le> c \<and> c < 127 \<longrightarrow> WireProbe c (bus_empty c) \<in> set (fst (i2cScan bus_empty))"
    by blast
  with h4 h5 have b: "WireProbe 126 2 \<in> set (fst (i2cScan bus_empty))" by metis
  from a b h1 h2 show ?thesis by blast
qed

text \<open>
  C7, as stated, fails. On a bus whose first transaction faults the scan aborts; on a bus
  where nothing answers the scan completes (126 transactions and one log line) without
  finding a device. Both calls hand the same value to the caller.
\<close>

theorem i2cScan_fault_vs_empty_counterexample:
  "snd (i2cScan bus_stuck) = snd (i2cScan bus_empty) \<and>
   \<not> snd (i2cScan bus_stuck) \<and>
   faulted (fst (i2cScan bus_stuck)) \<and>
   \<not> faulted (fst (i2cScan bus_empty)) \<and>
   acked (fst (i2cScan bus_empty)) = [] \<and>
   length (fst (i2cScan bus_empty)) = 127"
  by code_simp

text \<open>
  C7, amended. The value returned to the caller is true exactly when the scan met no bus
  fault and at least one address acknowledged; it is false both after a bus-fault abort
  and after a completed scan that found nothing. The two are told apart only by the log
  line the scan ends with: the fault line naming the faulting address in the first case,
  the no-devices line in the second, and these lines differ.
\<close>

theorem i2cScan_return_and_log:
  "snd (i2cScan bus) = (\<not> faulted (fst (i2cScan bus)) \<and> acked (fst (i2cScan bus)) \<noteq> []) \<and>
   (faulted (fst (i2cScan bus)) \<longrightarrow>
      (\<exists>b. last (fst (i2cScan bus)) = errLine b \<and> WireProbe b 4 \<in> set (fst (i2cScan bus)))) \<and>
   (\<not> faulted (fst (i2cScan bus)) \<and> acked (fst (i2cScan bus)) = [] \<longrightarrow>
      last (fst (i2cScan bus)) = noneLine) \<and>
   errLine a \<noteq> noneLine"
proof (cases bus rule: i2cScan_cases)
  case (fault pre b)
  have "faulted (fst (i2cScan bus))" using fault(1) by (auto simp: faulted_iff)
  then show ?thesis using fault(1) by (auto simp: errLine_not_noneLine)
next
  case (complete evs)
  have "\<not> faulted evs" using complete(2) by (force simp: faulted_iff)
  then have nf: "\<not> faulted (fst (i2cScan bus))"
    using complete(1) by (auto simp: faulted_iff noneLine_def foundLine_def split: if_splits)
  have a: "acked (fst (i2cScan bus)) = acked evs"
    using complete(1) by (simp add: noneLine_def foundLine_def)
  show ?thesis using nf a complete(1) by (simp add: errLine_not_noneLine)
qed

theorem i2cScan_return_and_log_witness:
  "faulted (fst (i2cScan bus_stuck)) \<and> \<not> snd (i2cScan bus_stuck) \<and>
   (\<exists>b. last (fst (i2cScan bus_stuck)) = errLine b) \<and>
   \<not> faulted (fst (i2cScan bus_empty)) \<and> acked (fst (i2cScan bus_empty)) = [] \<and>
   \<not> snd (i2cScan bus_empty) \<and> last (fst (i2cScan bus_empty)) = noneLine"
proof -
  have h1: "faulted (fst (i2cScan bus_stuck))" by code_simp
  have h2: "\<not> faulted (fst (i2cScan bus_empty))" by code_simp
  have h3: "acked (fst (i2cScan bus_empty)) = []" by code_simp
  from i2cScan_return_and_log [of bus_stuck] h1
  have a: "\<not> snd (i2cScan bus_stuck) \<and> (\<exists>b. last (fst (i2cScan bus_stuck)) = errLine b)"
    by blast
  from i2cScan_return_and_log [of bus_empty] h2 h3
  have b: "\<not> snd (i2cScan bus_empty) \<and> last (fst (i2cScan bus_empty)) = noneLine"
    by blast
  from a b h1 h2 h3 show ?thesis by blast
qed

subsection \<open>Events and fields of the blocks\<close>

lemma emit_fields [simp]:
  "trace (emit e s) = trace s @ [e]"
  "sensorOnlineTOF (emit e s) = sensorOnlineTOF s"
  "sensorOnlineLIS3DH (emit e s) = sensorOnlineLIS3DH s"
  "carrierOnline (emit e s) = carrierOnline s"
  "lastSampleTimestamp (emit e s) = lastSampleTimestamp s"
  "sampleRateMillis (emit e s) = sampleRateMillis s"
  "powerCycleOnce (emit e s) = powerCycleOnce s"
  by (simp_all add: emit_def)

lemma logInfo_fields [simp]:
  "trace (logInfo f a s) = trace s @ [LogInfo f a]"
  "sensorOnlineTOF (logInfo f a s) = sensorOnlineTOF s"
  "sensorOnlineLIS3DH (logInfo f a s) = sensorOnlineLIS3DH s"
  "carrierOnline (logInfo f a s) = carrierOnline s"
  "lastSampleTimestamp (logInfo f a s) = lastSampleTimestamp s"
  "sampleRateMillis (logInfo f a s) = sampleRateMillis s"
  "powerCycleOnce (logInfo f a s) = powerCycleOnce s"
  by (simp_all add: logInfo_def)

lemma call_i2cScan_fields [simp]:
  "trace (call_i2cScan bus s) = trace s @ fst (i2cScan bus)"
  "sensorOnlineTOF (call_i2cScan bus s) = sensorOnlineTOF s"
  "sensorOnlineLIS3DH (call_i2cScan bus s) = sensorOnlineLIS3DH s"
  "carrierOnline (call_i2cScan bus s) = carrierOnline s"
  "lastSampleTimestamp (call_i2cScan bus s) = lastSampleTimestamp s"
  "sampleRateMillis (call_i2cScan bus s) = sampleRateMillis s"
  "powerCycleOnce (call_i2cScan bus s) = powerCycleOnce s"
  by (simp_all add: call_i2cScan_def emits_def)

lemma init_LIS3DH_fields [simp]:
  "trace (init_LIS3DH ok s) = trace s @
     [AccelSetup RATE_100_HZ ok,
      LogInfo (if ok then ''LIS3DH Initialized successfully'' else ''LIS3DH failed initialization'') []]"
  "sensorOnlineTOF (init_LIS3DH ok s) = sensorOnlineTOF s"
  "sensorOnlineLIS3DH (init_LIS3DH ok s) = (sensorOnlineLIS3DH s \<or> ok)"
  "carrierOnline (init_LIS3DH ok s) = carrierOnline s"
  "lastSampleTimestamp (init_LIS3DH ok s) = lastSampleTimestamp s"
  "sampleRateMillis (init_LIS3DH ok s) = sampleRateMillis s"
  "powerCycleOnce (init_LIS3DH ok s) = powerCycleOnce s"
  by (simp_all add: init_LIS3DH_def Let_def)

lemma init_TOF_fields [simp]:
  "trace (init_TOF st s) = trace s @
     [TofBegin st,
      LogInfo (if st = 0 then ''TOF Sensor Initialized successfully''
               else ''TOF Sensor failed initialization'') []]"
  "sensorOnlineTOF (init_TOF st s) = (sensorOnlineTOF s \<or> st = 0)"
  "sensorOnlineLIS3DH (init_TOF st s) = sensorOnlineLIS3DH s"
  "carrierOnline (init_TOF st s) = carrierOnline s"
  "lastSampleTimestamp (init_TOF st s) = lastSampleTimestamp s"
  "sampleRateMillis (init_TOF st s) = sampleRateMillis s"
  "powerCycleOnce (init_TOF st s) = powerCycleOnce s"
  by (simp_all add: init_TOF_def Let_def)

lemma init_FRAM_fields [simp]:
  "trace (init_FRAM g1 g2 s) = trace s @
     (if uint g1 \<noteq> FRAMversionNumber then
        [FramBegin, FramGet versionAddr g1,
         LogInfo ''FRAM Module initializing version %i'' [FRAMversionNumber],
         FramErase, FramPut versionAddr FRAMversionNumber, FramGet versionAddr g2] @
        (if uint g2 \<noteq> FRAMversionNumber then
           [LogInfo ''FRAM test failed, expected %i and found %i'' [FRAMversionNumber, uint g2]]
         else [])
      else [FramBegin, FramGet versionAddr g1, LogInfo ''FRAM Module loaded successfully'' []])"
  "sensorOnlineTOF (init_FRAM g1 g2 s) = sensorOnlineTOF s"
  "sensorOnlineLIS3DH (init_FRAM g1 g2 s) = sensorOnlineLIS3DH s"
  "carrierOnline (init_FRAM g1 g2 s) = (uint g1 = FRAMversionNumber \<or> uint g2 = FRAMversionNumber)"
  "lastSampleTimestamp (init_FRAM g1 g2 s) = lastSampleTimestamp s"
  "sampleRateMillis (init_FRAM g1 g2 s) = sampleRateMillis s"
  "powerCycleOnce (init_FRAM g1 g2 s) = powerCycleOnce s"
  by (simp_all add: init_FRAM_def Let_def)

lemma init_AB1805_fields [simp]:
  "trace (init_AB1805 d s) = trace s @
     [Ab1805Setup D8, Ab1805SetWDT WATCHDOG_MAX_SECONDS, Ab1805DetectChip d,
      LogInfo (if d then ''AB1805 detected'' else ''AB1805 Failed to Initialize'') []]"
  "sensorOnlineTOF (init_AB1805 d s) = sensorOnlineTOF s"
  "sensorOnlineLIS3DH (init_AB1805 d s) = sensorOnlineLIS3DH s"
  "carrierOnline (init_AB1805 d s) = (carrierOnline s \<and> d)"
  "lastSampleTimestamp (init_AB1805 d s) = lastSampleTimestamp s"
  "sampleRateMillis (init_AB1805 d s) = sampleRateMillis s"
  "powerCycleOnce (init_AB1805 d s) = powerCycleOnce s"
  by (simp_all add: init_AB1805_def Let_def)

subsection \<open>\<^verbatim>\<open>setup\<close> as a whole\<close>

text \<open>The terminal decision of line 120, in terms of the start state and the answers.\<close>

lemma setup_fn_Returned_iff:
  "isReturned (setup_fn env s0) \<longleftrightarrow>
     (sensorOnlineLIS3DH s0 \<or> setup_accel env) \<and> (sensorOnlineTOF s0 \<or> setup_tof env = 0) \<and>
     (uint (setup_get1 env) = FRAMversionNumber \<or> uint (setup_get2 env) = FRAMversionNumber) \<and>
     setup_detect env"
  by (simp add: setup_fn_def Let_def)

lemma setup_fn_Halted_iff: "isHalted (setup_fn env s0) \<longleftrightarrow> \<not> isReturned (setup_fn env s0)"
  by (simp add: setup_fn_def Let_def)

lemma setup_fn_fields:
  "sensorOnlineLIS3DH (outcome_state (setup_fn env s0)) = (sensorOnlineLIS3DH s0 \<or> setup_accel env)"
  "sensorOnlineTOF (outcome_state (setup_fn env s0)) = (sensorOnlineTOF s0 \<or> setup_tof env = 0)"
  "carrierOnline (outcome_state (setup_fn env s0)) =
     ((uint (setup_get1 env) = FRAMversionNumber \<or> uint (setup_get2 env) = FRAMversionNumber) \<and>
      setup_detect env)"
  "lastSampleTimestamp (outcome_state (setup_fn env s0)) = lastSampleTimestamp s0"
  "sampleRateMillis (outcome_state (setup_fn env s0)) = sampleRateMillis s0"
  "powerCycleOnce (outcome_state (setup_fn env s0)) = powerCycleOnce s0"
  by (simp_all add: setup_fn_def Let_def)

lemma setup_fn_trace:
  "trace (outcome_state (setup_fn env s0)) =
     trace s0 @
     [WireBegin, PinMode intPin INPUT, PinMode disableModule OUTPUT,
      DigitalWrite disableModule False, Delay 1000] @
     fst (i2cScan (setup_bus env)) @
     [AccelSetup RATE_100_HZ (setup_accel env),
      LogInfo (if setup_accel env then ''LIS3DH Initialized successfully''
               else ''LIS3DH failed initialization'') [],
      TofBegin (setup_tof env),
      LogInfo (if setup_tof env = 0 then ''TOF Sensor Initialized successfully''
               else ''TOF Sensor failed initialization'') []] @
     (if uint (setup_get1 env) \<noteq> FRAMversionNumber then
        [FramBegin, FramGet versionAddr (setup_get1 env),
         LogInfo ''FRAM Module initializing version %i'' [FRAMversionNumber],
         FramErase, FramPut versionAddr FRAMversionNumber, FramGet versionAddr (setup_get2 env)] @
        (if uint (setup_get2 env) \<noteq> FRAMversionNumber then
           [LogInfo ''FRAM test failed, expected %i and found %i''
              [FRAMversionNumber, uint (setup_get2 env)]]
         else [])
      else [FramBegin, FramGet versionAddr (setup_get1 env),
            LogInfo ''FRAM Module loaded successfully'' []]) @
     [Ab1805Setup D8, Ab1805SetWDT WATCHDOG_MAX_SECONDS, Ab1805DetectChip (setup_detect env),
      LogInfo (if setup_detect env then ''AB1805 detected'' else ''AB1805 Failed to Initialize'') []] @
     (if isReturned (setup_fn env s0) then
        [LogInfo ''Initialization Complete all devices on-line'' [], Delay 500,
         LogInfo ''Starting a running sample run'' [],
         LogInfo ''*****************************'' []]
      else [LogInfo ''Errors in Initialization - Stopping'' []])"
  by (simp add: setup_fn_def Let_def)


subsection \<open>Filtering the events of a scan\<close>

lemma i2cScan_filter_empty:
  assumes "\<And>c r. \<not> P (WireProbe c r)" "\<And>b. \<not> P (errLine b)" "\<not> P noneLine"
    "\<And>as. \<not> P (foundLine as)"
  shows "filter P (fst (i2cScan bus)) = []"
proof -
  have "\<not> P e" if "e \<in> set (fst (i2cScan bus))" for e
    using i2cScan_events [OF that] assms by auto
  then show ?thesis by (simp add: filter_empty_conv)
qed

lemma i2cScan_no_fram [simp]: "filter isFramCall (fst (i2cScan bus)) = []"
  by (rule i2cScan_filter_empty) (simp_all add: errLine_def noneLine_def foundLine_def)

lemma i2cScan_no_framWrite [simp]: "filter isFramWrite (fst (i2cScan bus)) = []"
  by (rule i2cScan_filter_empty) (simp_all add: errLine_def noneLine_def foundLine_def)

lemma i2cScan_no_sample [simp]: "filter isSampleCall (fst (i2cScan bus)) = []"
  by (rule i2cScan_filter_empty) (simp_all add: errLine_def noneLine_def foundLine_def)

lemma i2cScan_no_wdt [simp]:
  "filter (\<lambda>e. e = Ab1805SetWDT WATCHDOG_MAX_SECONDS) (fst (i2cScan bus)) = []"
  by (rule i2cScan_filter_empty) (simp_all add: errLine_def noneLine_def foundLine_def)

lemma i2cScan_no_powerDown [simp]:
  "filter (\<lambda>e. e = DigitalWrite disableModule True) (fst (i2cScan bus)) = []"
  by (rule i2cScan_filter_empty) (simp_all add: errLine_def noneLine_def foundLine_def)

lemma i2cScan_no_selfTestStart [simp]:
  "filter (\<lambda>e. e = LogInfo ''Devices on line with power'' []) (fst (i2cScan bus)) = []"
  by (rule i2cScan_filter_empty) (simp_all add: errLine_def noneLine_def foundLine_def)

subsection \<open>Claims about initialization\<close>

text \<open>
  C2. The store-integrity check leaves \<open>carrierOnline\<close> true exactly when the first read
  or the read-back returns the expected version, whatever its value was before; the RTC
  block keeps it true exactly when the chip is detected and never sets it; so after
  \<^verbatim>\<open>setup\<close>, from any start state and whatever the bus and the two sensors did,
  \<open>carrierOnline\<close> is the conjunction of the store-integrity check and the RTC detection.
\<close>

theorem carrierOnline_is_conjunction:
  "carrierOnline (init_FRAM get1 get2 s) =
     (uint get1 = FRAMversionNumber \<or> uint get2 = FRAMversionNumber) \<and>
   carrierOnline (init_AB1805 detected s) = (carrierOnline s \<and> detected) \<and>
   carrierOnline (outcome_state (setup_fn env s0)) =
     (carrierOnline (init_FRAM (setup_get1 env) (setup_get2 env) s0) \<and> setup_detect env)"
  by (simp add: setup_fn_fields)

text \<open>
  C6. The expected version is 42. Over a whole run of \<^verbatim>\<open>setup\<close> the calls made to the
  non-volatile store are: on a mismatch of the first read, begin, read, erase, write of
  the expected version at the version address, read-back; on a match, begin and the one
  read only, so that no call of the run changes the store. The store-integrity check is
  marked passed on a match, and on a mismatch exactly when the read-back returns the
  expected version.
\<close>

theorem fram_version_check:
  "FRAMversionNumber = 42 \<and>
   filter isFramCall (trace (outcome_state (setup_fn env s0))) =
     filter isFramCall (trace s0) @
     (if uint (setup_get1 env) \<noteq> FRAMversionNumber
      then [FramBegin, FramGet versionAddr (setup_get1 env), FramErase,
            FramPut versionAddr FRAMversionNumber, FramGet versionAddr (setup_get2 env)]
      else [FramBegin, FramGet versionAddr (setup_get1 env)]) \<and>
   carrierOnline (init_FRAM get1 get2 s) =
     (if uint get1 \<noteq> FRAMversionNumber then uint get2 = FRAMversionNumber else True) \<and>
   (uint (setup_get1 env) = FRAMversionNumber \<longrightarrow>
      filter isFramWrite (trace (outcome_state (setup_fn env s0))) =
        filter isFramWrite (trace s0))"
  by (simp add: setup_fn_trace FRAMversionNumber_def)

theorem fram_version_check_witness:
  "filter isFramCall (trace (outcome_state (setup_fn env_fresh_fram initial))) =
     [FramBegin, FramGet 0 41, FramErase, FramPut 0 42, FramGet 0 42] \<and>
   filter isFramCall (trace (outcome_state (setup_fn env_all_good initial))) =
     [FramBegin, FramGet 0 42] \<and>
   carrierOnline (init_FRAM 41 42 initial) \<and> \<not> carrierOnline (init_FRAM 41 41 initial) \<and>
   uint (setup_get1 env_all_good) = FRAMversionNumber \<and>
   filter isFramWrite (trace (outcome_state (setup_fn env_all_good initial))) = []"
proof -
  have g: "setup_get1 env_fresh_fram = 41" "setup_get2 env_fresh_fram = 42"
      "setup_get1 env_all_good = 42"
    by (simp_all add: env_fresh_fram_def env_all_good_def)
  have t0: "trace initial = []" by (simp add: initial_def)
  have v: "versionAddr = 0" by (simp add: versionAddr_def)
  note calls = fram_version_check [THEN conjunct2, THEN conjunct1]
  note flag = fram_version_check [THEN conjunct2, THEN conjunct2, THEN conjunct1]
  note unchanged = fram_version_check [THEN conjunct2, THEN conjunct2, THEN conjunct2]
  have a: "filter isFramCall (trace (outcome_state (setup_fn env_fresh_fram initial))) =
     [FramBegin, FramGet 0 41, FramErase, FramPut 0 42, FramGet 0 42]"
    by (simp add: calls [of env_fresh_fram initial] g t0 v FRAMversionNumber_def)
  have b: "filter isFramCall (trace (outcome_state (setup_fn env_all_good initial))) =
     [FramBegin, FramGet 0 42]"
    by (simp add: calls [of env_all_good initial] g t0 v FRAMversionNumber_def)
  have c: "carrierOnline (init_FRAM 41 42 initial)"
    by (simp only: flag [of 41 42 initial]) (simp add: FRAMversionNumber_def)
  have d: "\<not> carrierOnline (init_FRAM 41 41 initial)"
    by (simp only: flag [of 41 41 initial]) (simp add: FRAMversionNumber_def)
  have h: "uint (setup_get1 env_all_good) = FRAMversionNumber"
    by (simp add: g FRAMversionNumber_def)
  from unchanged [of env_all_good initial] h
  have "filter isFramWrite (trace (outcome_state (setup_fn env_all_good initial))) =
        filter isFramWrite (trace initial)"
    by (rule mp)
  then have e: "filter isFramWrite (trace (outcome_state (setup_fn env_all_good initial))) = []"
    by (simp add: t0)
  from a b c d h e show ?thesis by (intro conjI)
qed

text \<open>
  C10. In every run of \<^verbatim>\<open>setup\<close>, whatever the devices answered before, the call that arms
  the watchdog at \<^verbatim>\<open>WATCHDOG_MAX_SECONDS\<close> is made exactly once, and what follows it in the
  trace is the chip detection with its log line and then the events of the terminal
  decision: the single stop line when \<^verbatim>\<open>setup\<close> halts, the four events of the accepting
  branch otherwise. \<^verbatim>\<open>setup\<close> either halts or returns.
\<close>

theorem setup_arms_watchdog:
  "(\<exists>pre. trace (outcome_state (setup_fn env s0)) =
       pre @
       [Ab1805SetWDT WATCHDOG_MAX_SECONDS, Ab1805DetectChip (setup_detect env),
        LogInfo (if setup_detect env then ''AB1805 detected''
                 else ''AB1805 Failed to Initialize'') []] @
       (if isHalted (setup_fn env s0) then [LogInfo ''Errors in Initialization - Stopping'' []]
        else [LogInfo ''Initialization Complete all devices on-line'' [], Delay 500,
              LogInfo ''Starting a running sample run'' [],
              LogInfo ''*****************************'' []])) \<and>
   isHalted (setup_fn env s0) = (\<not> isReturned (setup_fn env s0)) \<and>
   \<not> isHung (setup_fn env s0) \<and>
   length (filter (\<lambda>e. e = Ab1805SetWDT WATCHDOG_MAX_SECONDS)
             (trace (outcome_state (setup_fn env s0)))) =
     length (filter (\<lambda>e. e = Ab1805SetWDT WATCHDOG_MAX_SECONDS) (trace s0)) + 1"
proof -
  define pre where "pre = trace (init_FRAM (setup_get1 env) (setup_get2 env)
      (init_TOF (setup_tof env) (init_LIS3DH (setup_accel env)
        (call_i2cScan (setup_bus env)
          (emits [WireBegin, PinMode intPin INPUT, PinMode disableModule OUTPUT,
                  DigitalWrite disableModule False, Delay 1000] s0))))) @ [Ab1805Setup D8]"
  have tr: "trace (outcome_state (setup_fn env s0)) =
       pre @
       [Ab1805SetWDT WATCHDOG_MAX_SECONDS, Ab1805DetectChip (setup_detect env),
        LogInfo (if setup_detect env then ''AB1805 detected''
                 else ''AB1805 Failed to Initialize'') []] @
       (if isHalted (setup_fn env s0) then [LogInfo ''Errors in Initialization - Stopping'' []]
        else [LogInfo ''Initialization Complete all devices on-line'' [], Delay 500,
              LogInfo ''Starting a running sample run'' [],
              LogInfo ''*****************************'' []])"
    unfolding pre_def by (simp add: setup_fn_trace setup_fn_Halted_iff emits_def)
  have a: "\<exists>pre. trace (outcome_state (setup_fn env s0)) =
       pre @
       [Ab1805SetWDT WATCHDOG_MAX_SECONDS, Ab1805DetectChip (setup_detect env),
        LogInfo (if setup_detect env then ''AB1805 detected''
                 else ''AB1805 Failed to Initialize'') []] @
       (if isHalted (setup_fn env s0) then [LogInfo ''Errors in Initialization - Stopping'' []]
        else [LogInfo ''Initialization Complete all devices on-line'' [], Delay 500,
              LogInfo ''Starting a running sample run'' [],
              LogInfo ''*****************************'' []])"
    by (rule exI [where x = pre]) (rule tr)
  have b: "\<not> isHung (setup_fn env s0)" by (simp add: setup_fn_def Let_def)
  have c: "length (filter (\<lambda>e. e = Ab1805SetWDT WATCHDOG_MAX_SECONDS)
             (trace (outcome_state (setup_fn env s0)))) =
     length (filter (\<lambda>e. e = Ab1805SetWDT WATCHDOG_MAX_SECONDS) (trace s0)) + 1"
    by (simp add: setup_fn_trace)
  show ?thesis
    apply (intro conjI)
       apply (rule a)
      apply (rule setup_fn_Halted_iff)
     apply (rule b)
    apply (rule c)
    done
qed

theorem setup_arms_watchdog_witness:
  "isHalted (setup_fn env_no_rtc initial) \<and>
   (\<exists>pre. trace (outcome_state (setup_fn env_no_rtc initial)) =
       pre @ [Ab1805SetWDT WATCHDOG_MAX_SECONDS, Ab1805DetectChip False,
              LogInfo ''AB1805 Failed to Initialize'' [],
              LogInfo ''Errors in Initialization - Stopping'' []])"
proof -
  have h: "isHalted (setup_fn env_no_rtc initial)"
    by (simp add: setup_fn_Halted_iff setup_fn_Returned_iff env_no_rtc_def)
  have d: "setup_detect env_no_rtc = False" by (simp add: env_no_rtc_def)
  note ex = setup_arms_watchdog [of env_no_rtc initial, THEN conjunct1]
  from ex obtain pre where "trace (outcome_state (setup_fn env_no_rtc initial)) =
       pre @
       [Ab1805SetWDT WATCHDOG_MAX_SECONDS, Ab1805DetectChip (setup_detect env_no_rtc),
        LogInfo (if setup_detect env_no_rtc then ''AB1805 detected''
                 else ''AB1805 Failed to Initialize'') []] @
       (if isHalted (setup_fn env_no_rtc initial) then [LogInfo ''Errors in Initialization - Stopping'' []]
        else [LogInfo ''Initialization Complete all devices on-line'' [], Delay 500,
              LogInfo ''Starting a running sample run'' [],
              LogInfo ''*****************************'' []])"
    by (rule exE)
  then have p: "trace (outcome_state (setup_fn env_no_rtc initial)) =
       pre @ [Ab1805SetWDT WATCHDOG_MAX_SECONDS, Ab1805DetectChip False,
              LogInfo ''AB1805 Failed to Initialize'' [],
              LogInfo ''Errors in Initialization - Stopping'' []]"
    by (simp only: h d if_True if_False append_Cons append_Nil)
  have "\<exists>pre. trace (outcome_state (setup_fn env_no_rtc initial)) =
       pre @ [Ab1805SetWDT WATCHDOG_MAX_SECONDS, Ab1805DetectChip False,
              LogInfo ''AB1805 Failed to Initialize'' [],
              LogInfo ''Errors in Initialization - Stopping'' []]"
    by (rule exI [where x = pre]) (rule p)
  with h show ?thesis by (rule conjI)
qed

subsection \<open>The sampling part of \<^verbatim>\<open>loop\<close>\<close>

lemma waitDataReady_fields [simp]:
  "sensorOnlineTOF (snd (waitDataReady rs s)) = sensorOnlineTOF s"
  "sensorOnlineLIS3DH (snd (waitDataReady rs s)) = sensorOnlineLIS3DH s"
  "carrierOnline (snd (waitDataReady rs s)) = carrierOnline s"
  "lastSampleTimestamp (snd (waitDataReady rs s)) = lastSampleTimestamp s"
  "sampleRateMillis (snd (waitDataReady rs s)) = sampleRateMillis s"
  "powerCycleOnce (snd (waitDataReady rs s)) = powerCycleOnce s"
  by (induction rs arbitrary: s; simp add: Let_def)+

lemma waitDataReady_filter:
  assumes "\<And>r. \<not> P (TofCheckForDataReady r)" "\<not> P (Delay 1)"
  shows "filter P (trace (snd (waitDataReady rs s))) = filter P (trace s)"
  using assms by (induction rs arbitrary: s) (simp_all add: Let_def)

lemma sample_TOF_not_Halted [simp]: "\<not> isHalted (sample_TOF env s)"
  by (simp add: sample_TOF_def Let_def split: prod.split bool.split)

lemma sample_TOF_fields [simp]:
  "sensorOnlineTOF (outcome_state (sample_TOF env s)) = sensorOnlineTOF s"
  "sensorOnlineLIS3DH (outcome_state (sample_TOF env s)) = sensorOnlineLIS3DH s"
  "carrierOnline (outcome_state (sample_TOF env s)) = carrierOnline s"
  "lastSampleTimestamp (outcome_state (sample_TOF env s)) = lastSampleTimestamp s"
  "sampleRateMillis (outcome_state (sample_TOF env s)) = sampleRateMillis s"
  "powerCycleOnce (outcome_state (sample_TOF env s)) = powerCycleOnce s"
proof -
  obtain r s2 where w: "waitDataReady (loop_ready env) (emit TofStartRanging s) = (r, s2)"
    by (cases "waitDataReady (loop_ready env) (emit TofStartRanging s)")
  have s2: "s2 = snd (waitDataReady (loop_ready env) (emit TofStartRanging s))"
    using w by simp
  show "sensorOnlineTOF (outcome_state (sample_TOF env s)) = sensorOnlineTOF s"
    "sensorOnlineLIS3DH (outcome_state (sample_TOF env s)) = sensorOnlineLIS3DH s"
    "carrierOnline (outcome_state (sample_TOF env s)) = carrierOnline s"
    "lastSampleTimestamp (outcome_state (sample_TOF env s)) = lastSampleTimestamp s"
    "sampleRateMillis (outcome_state (sample_TOF env s)) = sampleRateMillis s"
    "powerCycleOnce (outcome_state (sample_TOF env s)) = powerCycleOnce s"
    by (cases r; simp add: sample_TOF_def Let_def w; simp add: s2)+
qed

lemma sample_TOF_filter:
  assumes "\<And>e. isSampleCall e \<Longrightarrow> \<not> P e" "\<not> P (Delay 1)"
    "\<And>a. \<not> P (LogInfo ''Distance measured = %i'' a)"
  shows "filter P (trace (outcome_state (sample_TOF env s))) = filter P (trace s)"
proof -
  obtain r s2 where w: "waitDataReady (loop_ready env) (emit TofStartRanging s) = (r, s2)"
    by (cases "waitDataReady (loop_ready env) (emit TofStartRanging s)")
  have "filter P (trace (snd (waitDataReady (loop_ready env) (emit TofStartRanging s)))) =
        filter P (trace (emit TofStartRanging s))"
  proof (rule waitDataReady_filter [of P])
    show "\<not> P (TofCheckForDataReady r)" for r by (rule assms(1)) simp
    show "\<not> P (Delay 1)" by (rule assms(2))
  qed
  then have s2: "filter P (trace s2) = filter P (trace s)"
    using w assms(1) [of TofStartRanging] by simp
  show ?thesis
    using s2 assms(1) [of "TofGetDistance (loop_distance env)"] assms(1) [of TofClearInterrupt]
      assms(1) [of TofStopRanging] assms(3)
    by (cases r) (simp_all add: sample_TOF_def Let_def w)
qed

lemma sample_LIS3DH_fields [simp]:
  "sensorOnlineTOF (sample_LIS3DH env s) = sensorOnlineTOF s"
  "sensorOnlineLIS3DH (sample_LIS3DH env s) = sensorOnlineLIS3DH s"
  "carrierOnline (sample_LIS3DH env s) = carrierOnline s"
  "lastSampleTimestamp (sample_LIS3DH env s) = lastSampleTimestamp s"
  "sampleRateMillis (sample_LIS3DH env s) = sampleRateMillis s"
  "powerCycleOnce (sample_LIS3DH env s) = powerCycleOnce s"
  by (simp_all add: sample_LIS3DH_def Let_def split: option.split)

lemma sample_LIS3DH_filter:
  assumes "\<And>e. isSampleCall e \<Longrightarrow> \<not> P e" "\<And>a. \<not> P (LogInfo ''%d,%d,%d'' a)"
    "\<not> P (SerialPrintln ''no sample'')"
  shows "filter P (trace (sample_LIS3DH env s)) = filter P (trace s)"
proof -
  have "\<not> P (AccelGetSample x)" for x using assms(1) by simp
  then show ?thesis
    using assms(2,3)
    by (cases "loop_sample env") (simp_all add: sample_LIS3DH_def Let_def split: prod.split)
qed

lemma sample_round_not_Halted [simp]: "\<not> isHalted (sample_round env s)"
proof -
  let ?s1 = "s\<lparr>lastSampleTimestamp := loop_millis2 env\<rparr>"
  have "\<not> isHalted (sample_TOF env ?s1)" by simp
  then show ?thesis
    by (cases "sample_TOF env ?s1") (simp_all add: sample_round_def Let_def)
qed

lemma sample_round_skip:
  "\<not> sampleRateMillis s < loop_millis1 env - lastSampleTimestamp s \<Longrightarrow>
     sample_round env s = Returned s"
  by (simp add: sample_round_def)

lemma sample_round_fields [simp]:
  "sensorOnlineTOF (outcome_state (sample_round env s)) = sensorOnlineTOF s"
  "sensorOnlineLIS3DH (outcome_state (sample_round env s)) = sensorOnlineLIS3DH s"
  "carrierOnline (outcome_state (sample_round env s)) = carrierOnline s"
  "sampleRateMillis (outcome_state (sample_round env s)) = sampleRateMillis s"
  "powerCycleOnce (outcome_state (sample_round env s)) = powerCycleOnce s"
  "lastSampleTimestamp (outcome_state (sample_round env s)) =
     (if sampleRateMillis s < loop_millis1 env - lastSampleTimestamp s then loop_millis2 env
      else lastSampleTimestamp s)"
proof -
  let ?s1 = "s\<lparr>lastSampleTimestamp := loop_millis2 env\<rparr>"
  note f = sample_TOF_fields [of env ?s1]
  show "sensorOnlineTOF (outcome_state (sample_round env s)) = sensorOnlineTOF s"
    using f by (cases "sample_TOF env ?s1") (simp_all add: sample_round_def Let_def)
  show "sensorOnlineLIS3DH (outcome_state (sample_round env s)) = sensorOnlineLIS3DH s"
    using f by (cases "sample_TOF env ?s1") (simp_all add: sample_round_def Let_def)
  show "carrierOnline (outcome_state (sample_round env s)) = carrierOnline s"
    using f by (cases "sample_TOF env ?s1") (simp_all add: sample_round_def Let_def)
  show "sampleRateMillis (outcome_state (sample_round env s)) = sampleRateMillis s"
    using f by (cases "sample_TOF env ?s1") (simp_all add: sample_round_def Let_def)
  show "powerCycleOnce (outcome_state (sample_round env s)) = powerCycleOnce s"
    using f by (cases "sample_TOF env ?s1") (simp_all add: sample_round_def Let_def)
  show "lastSampleTimestamp (outcome_state (sample_round env s)) =
     (if sampleRateMillis s < loop_millis1 env - lastSampleTimestamp s then loop_millis2 env
      else lastSampleTimestamp s)"
    using f by (cases "sample_TOF env ?s1") (simp_all add: sample_round_def Let_def)
qed

lemma sample_round_filter:
  assumes "\<And>e. isSampleCall e \<Longrightarrow> \<not> P e" "\<not> P (Delay 1)"
    "\<And>a. \<not> P (LogInfo ''Distance measured = %i'' a)"
    "\<And>a. \<not> P (LogInfo ''%d,%d,%d'' a)" "\<not> P (SerialPrintln ''no sample'')"
  shows "filter P (trace (outcome_state (sample_round env s))) = filter P (trace s)"
proof -
  let ?s1 = "s\<lparr>lastSampleTimestamp := loop_millis2 env\<rparr>"
  have t: "filter P (trace (outcome_state (sample_TOF env ?s1))) = filter P (trace s)"
    using sample_TOF_filter [of P env ?s1] assms(1,2,3) by simp
  have l: "filter P (trace (sample_LIS3DH env s')) = filter P (trace s')" for s'
    using sample_LIS3DH_filter [of P env s'] assms(1,4,5) by simp
  show ?thesis
    using t l by (cases "sample_TOF env ?s1") (simp_all add: sample_round_def Let_def)
qed

subsection \<open>The power-cycle self-test and \<^verbatim>\<open>loop\<close> as a whole\<close>

lemma powerCycleTest_Returned_iff:
  "isReturned (powerCycleTest env s) \<longleftrightarrow>
     (sensorOnlineLIS3DH s \<or> loop_accel env) \<and> (sensorOnlineTOF s \<or> loop_tof env = 0)"
  by (simp add: powerCycleTest_def Let_def)

lemma powerCycleTest_not_Hung [simp]: "\<not> isHung (powerCycleTest env s)"
  by (simp add: powerCycleTest_def Let_def)

lemma powerCycleTest_Halted_iff:
  "isHalted (powerCycleTest env s) \<longleftrightarrow> \<not> isReturned (powerCycleTest env s)"
  by (simp add: powerCycleTest_def Let_def)

lemma powerCycleTest_fields [simp]:
  "sensorOnlineLIS3DH (outcome_state (powerCycleTest env s)) = (sensorOnlineLIS3DH s \<or> loop_accel env)"
  "sensorOnlineTOF (outcome_state (powerCycleTest env s)) = (sensorOnlineTOF s \<or> loop_tof env = 0)"
  "carrierOnline (outcome_state (powerCycleTest env s)) = carrierOnline s"
  "lastSampleTimestamp (outcome_state (powerCycleTest env s)) = lastSampleTimestamp s"
  "sampleRateMillis (outcome_state (powerCycleTest env s)) = sampleRateMillis s"
  "powerCycleOnce (outcome_state (powerCycleTest env s)) = False"
  by (simp_all add: powerCycleTest_def Let_def)

lemma powerCycleTest_trace:
  "trace (outcome_state (powerCycleTest env s)) =
     trace s @ [LogInfo ''Devices on line with power'' []] @
     fst (i2cScan (loop_bus1 env)) @
     [LogInfo ''Powering down the sensor board'' [], DigitalWrite disableModule True,
      Delay 1000, LogInfo ''Devices on-line without power'' []] @
     fst (i2cScan (loop_bus2 env)) @
     [Ab1805DetectChip (loop_detect env)] @
     (if loop_detect env then [LogInfo ''AB1805 detected'' []] else []) @
     [LogInfo ''Bringing sensors back on-line'' [], DigitalWrite disableModule False,
      LogInfo ''Devices on-line with power restored'' []] @
     fst (i2cScan (loop_bus3 env)) @
     [AccelSetup RATE_100_HZ (loop_accel env),
      LogInfo (if loop_accel env then ''LIS3DH Initialized successfully''
               else ''LIS3DH failed initialization'') [],
      TofBegin (loop_tof env),
      LogInfo (if loop_tof env = 0 then ''TOF Sensor Initialized successfully''
               else ''TOF Sensor failed initialization'') [],
      LogInfo (if isReturned (powerCycleTest env s)
               then ''Power on test complete - measuring resumed''
               else ''Power on test failed - stopping'') []]"
  by (simp add: powerCycleTest_def Let_def)

text \<open>\<^verbatim>\<open>loop\<close> by cases on what its sampling part did.\<close>

lemma loop_cases:
  obtains (hung) s1 where "sample_round env s = Hung s1" "loop env s = Hung s1"
  | (idle) s1 where "sample_round env s = Returned s1" "\<not> powerCycleOnce s"
      "loop env s = Returned s1"
  | (test) s1 where "sample_round env s = Returned s1" "powerCycleOnce s"
      "loop env s = powerCycleTest env s1"
proof (cases "sample_round env s")
  case (Returned s1)
  have "powerCycleOnce s1 = powerCycleOnce s"
    using sample_round_fields(5) [of env s] Returned by simp
  then show ?thesis using Returned idle test by (cases "powerCycleOnce s") (simp_all add: loop_def)
next
  case (Halted s1)
  then show ?thesis using sample_round_not_Halted [of env s] by simp
next
  case (Hung s1)
  then show ?thesis using hung by (simp add: loop_def)
qed

lemma loop_fields:
  "sensorOnlineLIS3DH (outcome_state (loop env s)) =
     (sensorOnlineLIS3DH s \<or> powerCycleOnce s \<and> \<not> isHung (loop env s) \<and> loop_accel env)"
  "sensorOnlineTOF (outcome_state (loop env s)) =
     (sensorOnlineTOF s \<or> powerCycleOnce s \<and> \<not> isHung (loop env s) \<and> loop_tof env = 0)"
  "carrierOnline (outcome_state (loop env s)) = carrierOnline s"
  "sampleRateMillis (outcome_state (loop env s)) = sampleRateMillis s"
  "powerCycleOnce (outcome_state (loop env s)) = (powerCycleOnce s \<and> isHung (loop env s))"
  "lastSampleTimestamp (outcome_state (loop env s)) =
     (if sampleRateMillis s < loop_millis1 env - lastSampleTimestamp s then loop_millis2 env
      else lastSampleTimestamp s)"
proof -
  note f = sample_round_fields [of env s]
  show "sensorOnlineLIS3DH (outcome_state (loop env s)) =
     (sensorOnlineLIS3DH s \<or> powerCycleOnce s \<and> \<not> isHung (loop env s) \<and> loop_accel env)"
    using f by (cases env s rule: loop_cases) simp_all
  show "sensorOnlineTOF (outcome_state (loop env s)) =
     (sensorOnlineTOF s \<or> powerCycleOnce s \<and> \<not> isHung (loop env s) \<and> loop_tof env = 0)"
    using f by (cases env s rule: loop_cases) simp_all
  show "carrierOnline (outcome_state (loop env s)) = carrierOnline s"
    using f by (cases env s rule: loop_cases) simp_all
  show "sampleRateMillis (outcome_state (loop env s)) = sampleRateMillis s"
    using f by (cases env s rule: loop_cases) simp_all
  show "powerCycleOnce (outcome_state (loop env s)) = (powerCycleOnce s \<and> isHung (loop env s))"
    using f by (cases env s rule: loop_cases) simp_all
  show "lastSampleTimestamp (outcome_state (loop env s)) =
     (if sampleRateMillis s < loop_millis1 env - lastSampleTimestamp s then loop_millis2 env
      else lastSampleTimestamp s)"
    using f by (cases env s rule: loop_cases) simp_all
qed

lemma loop_Halted_iff:
  "isHalted (loop env s) \<longleftrightarrow>
     powerCycleOnce s \<and> \<not> isHung (loop env s) \<and>
     \<not> ((sensorOnlineLIS3DH s \<or> loop_accel env) \<and> (sensorOnlineTOF s \<or> loop_tof env = 0))"
proof (cases env s rule: loop_cases)
  case (hung s1)
  then show ?thesis by simp
next
  case (idle s1)
  then show ?thesis by simp
next
  case (test s1)
  then show ?thesis
    using sample_round_fields(1,2) [of env s]
    by (simp add: powerCycleTest_Halted_iff powerCycleTest_Returned_iff)
qed

text \<open>
  How often an event that the sampling part never emits occurs after one pass: as often
  as before, plus its occurrences in the self-test if the self-test ran.
\<close>

lemma loop_filter:
  assumes "\<And>e. isSampleCall e \<Longrightarrow> \<not> P e" "\<not> P (Delay 1)"
    "\<And>a. \<not> P (LogInfo ''Distance measured = %i'' a)"
    "\<And>a. \<not> P (LogInfo ''%d,%d,%d'' a)" "\<not> P (SerialPrintln ''no sample'')"
  shows "filter P (trace (outcome_state (loop env s))) =
     filter P (trace s) @
     (if powerCycleOnce s \<and> \<not> isHung (loop env s)
      then filter P (trace (outcome_state (powerCycleTest env (s\<lparr>trace := []\<rparr>))))
      else [])"
proof -
  note sr = sample_round_filter [of P env s, OF assms]
  show ?thesis
  proof (cases env s rule: loop_cases)
    case (hung s1)
    then show ?thesis using sr by simp
  next
    case (idle s1)
    then show ?thesis using sr by simp
  next
    case (test s1)
    have r: "isReturned (powerCycleTest env s1) = isReturned (powerCycleTest env (s\<lparr>trace := []\<rparr>))"
      using sample_round_fields(1,2) [of env s] test(1)
      by (simp add: powerCycleTest_Returned_iff)
    have "filter P (trace (outcome_state (powerCycleTest env s1))) =
          filter P (trace s1) @ filter P (trace (outcome_state (powerCycleTest env (s\<lparr>trace := []\<rparr>))))"
      by (simp add: powerCycleTest_trace r)
    then show ?thesis using test sr by simp
  qed
qed

subsection \<open>Counting self-test runs\<close>

lemma sampleCall_not_selfTestStart:
  "isSampleCall e \<Longrightarrow> e \<noteq> LogInfo ''Devices on line with power'' []"
  by (cases e) simp_all

lemma sampleCall_not_powerDown: "isSampleCall e \<Longrightarrow> e \<noteq> DigitalWrite disableModule True"
  by (cases e) simp_all

lemma powerCycleTest_counts:
  "selfTestStarts (trace (outcome_state (powerCycleTest env (s\<lparr>trace := []\<rparr>)))) = 1"
  "powerDowns (trace (outcome_state (powerCycleTest env (s\<lparr>trace := []\<rparr>)))) = 1"
  by (simp_all add: selfTestStarts_def powerDowns_def powerCycleTest_trace)

lemma loop_selfTestStarts:
  "selfTestStarts (trace (outcome_state (loop env s))) =
     selfTestStarts (trace s) + (if powerCycleOnce s \<and> \<not> isHung (loop env s) then 1 else 0)"
proof -
  have "filter (\<lambda>e. e = LogInfo ''Devices on line with power'' []) (trace (outcome_state (loop env s))) =
     filter (\<lambda>e. e = LogInfo ''Devices on line with power'' []) (trace s) @
     (if powerCycleOnce s \<and> \<not> isHung (loop env s)
      then filter (\<lambda>e. e = LogInfo ''Devices on line with power'' [])
             (trace (outcome_state (powerCycleTest env (s\<lparr>trace := []\<rparr>))))
      else [])"
    by (rule loop_filter) (simp_all add: sampleCall_not_selfTestStart)
  then show ?thesis
    using powerCycleTest_counts(1) [of env s] by (simp add: selfTestStarts_def)
qed

lemma loop_powerDowns:
  "powerDowns (trace (outcome_state (loop env s))) =
     powerDowns (trace s) + (if powerCycleOnce s \<and> \<not> isHung (loop env s) then 1 else 0)"
proof -
  have "filter (\<lambda>e. e = DigitalWrite disableModule True) (trace (outcome_state (loop env s))) =
     filter (\<lambda>e. e = DigitalWrite disableModule True) (trace s) @
     (if powerCycleOnce s \<and> \<not> isHung (loop env s)
      then filter (\<lambda>e. e = DigitalWrite disableModule True)
             (trace (outcome_state (powerCycleTest env (s\<lparr>trace := []\<rparr>))))
      else [])"
    by (rule loop_filter) (simp_all add: sampleCall_not_powerDown)
  then show ?thesis
    using powerCycleTest_counts(2) [of env s] by (simp add: powerDowns_def)
qed

lemma run_selfTestStarts:
  "selfTestStarts (trace (outcome_state (run lenvs s))) +
     (if powerCycleOnce (outcome_state (run lenvs s)) then 1 else 0) =
   selfTestStarts (trace s) + (if powerCycleOnce s then 1 else 0)"
proof (induction lenvs arbitrary: s)
  case Nil
  show ?case by simp
next
  case (Cons env envs)
  note c = loop_selfTestStarts [of env s] and f = loop_fields(5) [of env s]
  show ?case
  proof (cases "loop env s")
    case (Returned s1)
    then show ?thesis using Cons.IH [of s1] c f by (simp split: if_splits)
  next
    case (Halted s1)
    then show ?thesis using c f by (simp split: if_splits)
  next
    case (Hung s1)
    then show ?thesis using c f by (simp split: if_splits)
  qed
qed

lemma run_powerDowns:
  "powerDowns (trace (outcome_state (run lenvs s))) +
     (if powerCycleOnce (outcome_state (run lenvs s)) then 1 else 0) =
   powerDowns (trace s) + (if powerCycleOnce s then 1 else 0)"
proof (induction lenvs arbitrary: s)
  case Nil
  show ?case by simp
next
  case (Cons env envs)
  note c = loop_powerDowns [of env s] and f = loop_fields(5) [of env s]
  show ?case
  proof (cases "loop env s")
    case (Returned s1)
    then show ?thesis using Cons.IH [of s1] c f by (simp split: if_splits)
  next
    case (Halted s1)
    then show ?thesis using c f by (simp split: if_splits)
  next
    case (Hung s1)
    then show ?thesis using c f by (simp split: if_splits)
  qed
qed

lemma setup_fn_counts:
  "selfTestStarts (trace (outcome_state (setup_fn env s))) = selfTestStarts (trace s)"
  "powerDowns (trace (outcome_state (setup_fn env s))) = powerDowns (trace s)"
  by (simp_all add: selfTestStarts_def powerDowns_def setup_fn_trace)

lemma boot_counts:
  "selfTestStarts (trace (outcome_state (boot senv lenvs))) +
     (if powerCycleOnce (outcome_state (boot senv lenvs)) then 1 else 0) = 1"
  "powerDowns (trace (outcome_state (boot senv lenvs))) +
     (if powerCycleOnce (outcome_state (boot senv lenvs)) then 1 else 0) = 1"
proof -
  have i: "selfTestStarts (trace initial) = 0" "powerDowns (trace initial) = 0"
      "powerCycleOnce initial"
    by (simp_all add: initial_def selfTestStarts_def powerDowns_def)
  note s = setup_fn_counts [of senv initial] setup_fn_fields(6) [of senv initial]
  show "selfTestStarts (trace (outcome_state (boot senv lenvs))) +
     (if powerCycleOnce (outcome_state (boot senv lenvs)) then 1 else 0) = 1"
  proof (cases "setup_fn senv initial")
    case (Returned s1)
    then show ?thesis using run_selfTestStarts [of lenvs s1] s i by (simp add: boot_def)
  next
    case (Halted s1)
    then show ?thesis using s i by (simp add: boot_def)
  next
    case (Hung s1)
    then show ?thesis using s i by (simp add: boot_def)
  qed
  show "powerDowns (trace (outcome_state (boot senv lenvs))) +
     (if powerCycleOnce (outcome_state (boot senv lenvs)) then 1 else 0) = 1"
  proof (cases "setup_fn senv initial")
    case (Returned s1)
    then show ?thesis using run_powerDowns [of lenvs s1] s i by (simp add: boot_def)
  next
    case (Halted s1)
    then show ?thesis using s i by (simp add: boot_def)
  next
    case (Hung s1)
    then show ?thesis using s i by (simp add: boot_def)
  qed
qed

subsection \<open>Claims about \<^verbatim>\<open>loop\<close>\<close>

text \<open>
  C3. The one-shot flag starts true. A pass of \<^verbatim>\<open>loop\<close> leaves it true only if it was true
  and the pass never got past the wait for the distance sensor; in every other pass it
  ends false. A pass runs the self-test body (its first log line, its power-down write)
  once if the flag was true and the pass got that far, and not at all otherwise. Over a
  whole process (\<^verbatim>\<open>setup\<close>, then any number of passes, with any driver answers) the body
  has run once if the flag has been cleared and never if it has not: at most once.
\<close>

theorem selfTest_at_most_once:
  "powerCycleOnce initial \<and>
   powerCycleOnce (outcome_state (loop env s)) = (powerCycleOnce s \<and> isHung (loop env s)) \<and>
   selfTestStarts (trace (outcome_state (loop env s))) =
     selfTestStarts (trace s) + (if powerCycleOnce s \<and> \<not> isHung (loop env s) then 1 else 0) \<and>
   powerDowns (trace (outcome_state (loop env s))) =
     powerDowns (trace s) + (if powerCycleOnce s \<and> \<not> isHung (loop env s) then 1 else 0) \<and>
   selfTestStarts (trace (outcome_state (boot senv lenvs))) =
     (if powerCycleOnce (outcome_state (boot senv lenvs)) then 0 else 1) \<and>
   powerDowns (trace (outcome_state (boot senv lenvs))) =
     (if powerCycleOnce (outcome_state (boot senv lenvs)) then 0 else 1) \<and>
   selfTestStarts (trace (outcome_state (boot senv lenvs))) \<le> 1 \<and>
   powerDowns (trace (outcome_state (boot senv lenvs))) \<le> 1"
proof -
  have i: "powerCycleOnce initial" by (simp add: initial_def)
  note b = boot_counts [of senv lenvs]
  have b1: "selfTestStarts (trace (outcome_state (boot senv lenvs))) =
     (if powerCycleOnce (outcome_state (boot senv lenvs)) then 0 else 1)"
    using b(1) by (simp split: if_splits)
  have b2: "powerDowns (trace (outcome_state (boot senv lenvs))) =
     (if powerCycleOnce (outcome_state (boot senv lenvs)) then 0 else 1)"
    using b(2) by (simp split: if_splits)
  have b3: "selfTestStarts (trace (outcome_state (boot senv lenvs))) \<le> 1" using b(1) by simp
  have b4: "powerDowns (trace (outcome_state (boot senv lenvs))) \<le> 1" using b(2) by simp
  show ?thesis
    apply (intro conjI)
           apply (rule i)
          apply (rule loop_fields(5))
         apply (rule loop_selfTestStarts)
        apply (rule loop_powerDowns)
       apply (rule b1)
      apply (rule b2)
     apply (rule b3)
    apply (rule b4)
    done
qed

theorem selfTest_at_most_once_witness:
  "\<not> powerCycleOnce (outcome_state (boot env_all_good [lenv_good 5000, lenv_good 6000, lenv_good 9000])) \<and>
   isReturned (boot env_all_good [lenv_good 5000, lenv_good 6000, lenv_good 9000]) \<and>
   selfTestStarts (trace (outcome_state (boot env_all_good [lenv_good 5000, lenv_good 6000, lenv_good 9000]))) = 1 \<and>
   powerDowns (trace (outcome_state (boot env_all_good [lenv_good 5000, lenv_good 6000, lenv_good 9000]))) = 1"
proof -
  have h: "\<not> powerCycleOnce (outcome_state (boot env_all_good [lenv_good 5000, lenv_good 6000, lenv_good 9000]))"
    by code_simp
  have r: "isReturned (boot env_all_good [lenv_good 5000, lenv_good 6000, lenv_good 9000])"
    by code_simp
  note t = selfTest_at_most_once [of _ _ env_all_good "[lenv_good 5000, lenv_good 6000, lenv_good 9000]"]
  have a: "selfTestStarts (trace (outcome_state (boot env_all_good [lenv_good 5000, lenv_good 6000, lenv_good 9000]))) = 1"
    by (simp only: t [THEN conjunct2, THEN conjunct2, THEN conjunct2, THEN conjunct2, THEN conjunct1] h if_False)
  have b: "powerDowns (trace (outcome_state (boot env_all_good [lenv_good 5000, lenv_good 6000, lenv_good 9000]))) = 1"
    by (simp only: t [THEN conjunct2, THEN conjunct2, THEN conjunct2, THEN conjunct2, THEN conjunct2, THEN conjunct1] h if_False)
  from h r a b show ?thesis by (intro conjI)
qed

lemma run_flags:
  "sensorOnlineLIS3DH s \<Longrightarrow> sensorOnlineLIS3DH (outcome_state (run lenvs s))"
  "sensorOnlineTOF s \<Longrightarrow> sensorOnlineTOF (outcome_state (run lenvs s))"
proof -
  show "sensorOnlineLIS3DH s \<Longrightarrow> sensorOnlineLIS3DH (outcome_state (run lenvs s))"
  proof (induction lenvs arbitrary: s)
    case Nil
    then show ?case by simp
  next
    case (Cons env envs)
    have "sensorOnlineLIS3DH (outcome_state (loop env s))"
      using Cons.prems by (simp add: loop_fields)
    then show ?case using Cons.IH by (cases "loop env s") simp_all
  qed
  show "sensorOnlineTOF s \<Longrightarrow> sensorOnlineTOF (outcome_state (run lenvs s))"
  proof (induction lenvs arbitrary: s)
    case Nil
    then show ?case by simp
  next
    case (Cons env envs)
    have "sensorOnlineTOF (outcome_state (loop env s))"
      using Cons.prems by (simp add: loop_fields)
    then show ?case using Cons.IH by (cases "loop env s") simp_all
  qed
qed

lemma setup_fn_Returned_flags:
  assumes "isReturned (setup_fn senv initial)"
  shows "sensorOnlineLIS3DH (outcome_state (setup_fn senv initial))"
    "sensorOnlineTOF (outcome_state (setup_fn senv initial))"
  using assms by (simp_all add: setup_fn_Returned_iff setup_fn_fields initial_def)

text \<open>
  C8. Each of the two bring-up blocks can only set its flag: afterwards the flag is true
  if it was true before or the driver reported success, so a failed re-initialization
  leaves it as it was. Hence a pass of \<^verbatim>\<open>loop\<close> never clears a flag that is set, and once
  \<^verbatim>\<open>setup\<close> has returned both flags are true after any number of passes, whatever the
  drivers answer.
\<close>

theorem sensor_flags_never_cleared:
  "sensorOnlineLIS3DH (init_LIS3DH setupSuccess s) = (sensorOnlineLIS3DH s \<or> setupSuccess) \<and>
   sensorOnlineTOF (init_TOF status s) = (sensorOnlineTOF s \<or> status = 0) \<and>
   (sensorOnlineLIS3DH s \<longrightarrow> sensorOnlineLIS3DH (outcome_state (loop env s))) \<and>
   (sensorOnlineTOF s \<longrightarrow> sensorOnlineTOF (outcome_state (loop env s))) \<and>
   (isReturned (setup_fn senv initial) \<longrightarrow>
      sensorOnlineLIS3DH (outcome_state (boot senv lenvs)) \<and>
      sensorOnlineTOF (outcome_state (boot senv lenvs)))"
proof -
  have a: "isReturned (setup_fn senv initial) \<longrightarrow>
      sensorOnlineLIS3DH (outcome_state (boot senv lenvs)) \<and>
      sensorOnlineTOF (outcome_state (boot senv lenvs))"
  proof
    assume r: "isReturned (setup_fn senv initial)"
    then obtain s1 where s1: "setup_fn senv initial = Returned s1"
      by (cases "setup_fn senv initial") simp_all
    have "sensorOnlineLIS3DH s1" "sensorOnlineTOF s1"
      using setup_fn_Returned_flags [OF r] s1 by simp_all
    then have "sensorOnlineLIS3DH (outcome_state (run lenvs s1))"
        "sensorOnlineTOF (outcome_state (run lenvs s1))"
      using run_flags [of s1 lenvs] by simp_all
    then show "sensorOnlineLIS3DH (outcome_state (boot senv lenvs)) \<and>
      sensorOnlineTOF (outcome_state (boot senv lenvs))"
      using s1 by (simp add: boot_def)
  qed
  show ?thesis
    apply (intro conjI)
        apply (rule init_LIS3DH_fields(3))
       apply (rule init_TOF_fields(2))
      apply (simp add: loop_fields)
     apply (simp add: loop_fields)
    apply (rule a)
    done
qed

theorem sensor_flags_never_cleared_witness:
  "isReturned (setup_fn env_all_good initial) \<and>
   sensorOnlineLIS3DH (outcome_state (boot env_all_good [lenv_accel_lost 5000, lenv_good 9000])) \<and>
   sensorOnlineTOF (outcome_state (boot env_all_good [lenv_accel_lost 5000, lenv_good 9000])) \<and>
   sensorOnlineLIS3DH (init_LIS3DH False after_good_setup) \<and>
   sensorOnlineLIS3DH after_good_setup"
proof -
  have r: "isReturned (setup_fn env_all_good initial)"
    by (simp add: setup_fn_Returned_iff env_all_good_def FRAMversionNumber_def)
  note t = sensor_flags_never_cleared
    [where senv = env_all_good and lenvs = "[lenv_accel_lost 5000, lenv_good 9000]"]
  from t [THEN conjunct2, THEN conjunct2, THEN conjunct2, THEN conjunct2] r
  have b: "sensorOnlineLIS3DH (outcome_state (boot env_all_good [lenv_accel_lost 5000, lenv_good 9000])) \<and>
   sensorOnlineTOF (outcome_state (boot env_all_good [lenv_accel_lost 5000, lenv_good 9000]))"
    by (rule mp)
  have g: "sensorOnlineLIS3DH after_good_setup"
    unfolding after_good_setup_def using r by (rule setup_fn_Returned_flags(1))
  have "sensorOnlineLIS3DH (init_LIS3DH False after_good_setup) =
          (sensorOnlineLIS3DH after_good_setup \<or> False)"
    by (rule sensor_flags_never_cleared [THEN conjunct1])
  with g have c: "sensorOnlineLIS3DH (init_LIS3DH False after_good_setup)" by simp
  from r b c g show ?thesis by (intro conjI) (simp_all only:)
qed

text \<open>
  C9. The interval is 2000 ms and neither \<^verbatim>\<open>setup\<close> nor \<^verbatim>\<open>loop\<close> changes it. A pass of
  \<^verbatim>\<open>loop\<close> moves \<^verbatim>\<open>lastSampleTimestamp\<close> exactly when the elapsed time (the 32-bit
  difference of \<^verbatim>\<open>millis()\<close> and \<^verbatim>\<open>lastSampleTimestamp\<close>) is strictly greater than the
  interval. When it is not greater the pass makes no call that takes a reading from a
  sensor; in particular when the elapsed time equals the interval no sample is taken and
  the timestamp stays.
\<close>

theorem sample_only_after_interval:
  "sampleRateMillis initial = 2000 \<and>
   sampleRateMillis (outcome_state (setup_fn senv s)) = sampleRateMillis s \<and>
   sampleRateMillis (outcome_state (loop env s)) = sampleRateMillis s \<and>
   lastSampleTimestamp (outcome_state (loop env s)) =
     (if sampleRateMillis s < loop_millis1 env - lastSampleTimestamp s then loop_millis2 env
      else lastSampleTimestamp s) \<and>
   (\<not> sampleRateMillis s < loop_millis1 env - lastSampleTimestamp s \<longrightarrow>
      filter isSampleCall (trace (outcome_state (loop env s))) = filter isSampleCall (trace s)) \<and>
   (loop_millis1 env - lastSampleTimestamp s = sampleRateMillis s \<longrightarrow>
      filter isSampleCall (trace (outcome_state (loop env s))) = filter isSampleCall (trace s) \<and>
      lastSampleTimestamp (outcome_state (loop env s)) = lastSampleTimestamp s)"
proof -
  have i: "sampleRateMillis initial = 2000" by (simp add: initial_def)
  have skip: "filter isSampleCall (trace (outcome_state (loop env s))) = filter isSampleCall (trace s)"
    if n: "\<not> sampleRateMillis s < loop_millis1 env - lastSampleTimestamp s"
  proof -
    have sr: "sample_round env s = Returned s" using n by (rule sample_round_skip)
    show ?thesis
    proof (cases "powerCycleOnce s")
      case True
      then show ?thesis by (simp add: loop_def sr powerCycleTest_trace)
    next
      case False
      then show ?thesis by (simp add: loop_def sr)
    qed
  qed
  have eq: "filter isSampleCall (trace (outcome_state (loop env s))) = filter isSampleCall (trace s) \<and>
      lastSampleTimestamp (outcome_state (loop env s)) = lastSampleTimestamp s"
    if e: "loop_millis1 env - lastSampleTimestamp s = sampleRateMillis s"
  proof -
    have n: "\<not> sampleRateMillis s < loop_millis1 env - lastSampleTimestamp s" using e by simp
    then show ?thesis using skip by (simp add: loop_fields)
  qed
  show ?thesis
    apply (intro conjI impI)
          apply (rule i)
         apply (rule setup_fn_fields(5))
        apply (rule loop_fields(4))
       apply (rule loop_fields(6))
      apply (erule skip)
     apply (erule eq [THEN conjunct1])
    apply (erule eq [THEN conjunct2])
    done
qed

theorem sample_only_after_interval_witness:
  "loop_millis1 (lenv_good 2000) - lastSampleTimestamp after_good_setup =
     sampleRateMillis after_good_setup \<and>
   sampleRateMillis after_good_setup = 2000 \<and>
   filter isSampleCall (trace (outcome_state (loop (lenv_good 2000) after_good_setup))) =
     filter isSampleCall (trace after_good_setup) \<and>
   lastSampleTimestamp (outcome_state (loop (lenv_good 2000) after_good_setup)) =
     lastSampleTimestamp after_good_setup"
proof -
  have l: "lastSampleTimestamp after_good_setup = 0" "sampleRateMillis after_good_setup = 2000"
    by (simp_all add: after_good_setup_def setup_fn_fields initial_def)
  have m: "loop_millis1 (lenv_good 2000) = 2000" by (simp add: lenv_good_def)
  have h: "loop_millis1 (lenv_good 2000) - lastSampleTimestamp after_good_setup =
     sampleRateMillis after_good_setup"
    by (simp add: l m)
  note t = sample_only_after_interval [where env = "lenv_good 2000" and s = after_good_setup]
  from t [THEN conjunct2, THEN conjunct2, THEN conjunct2, THEN conjunct2, THEN conjunct2] h
  have "filter isSampleCall (trace (outcome_state (loop (lenv_good 2000) after_good_setup))) =
     filter isSampleCall (trace after_good_setup) \<and>
   lastSampleTimestamp (outcome_state (loop (lenv_good 2000) after_good_setup)) =
     lastSampleTimestamp after_good_setup"
    by (rule mp)
  with h l(2) show ?thesis by (intro conjI) (simp_all only:)
qed

text \<open>
  C1 does not hold of the sketch. After a start-up in which every device answered, take
  the first pass of \<^verbatim>\<open>loop\<close> with an accelerometer that fails to initialize once power is
  restored. The failure is logged, yet \<^verbatim>\<open>sensorOnlineLIS3DH\<close> is still true afterwards, the
  self-test reports completion and \<^verbatim>\<open>loop\<close> returns instead of halting.
\<close>

theorem selftest_accel_failure_goes_unnoticed:
  "sensorOnlineLIS3DH after_good_setup \<and> powerCycleOnce after_good_setup \<and>
   loop_accel (lenv_accel_lost 5000) = False \<and>
   isReturned (loop (lenv_accel_lost 5000) after_good_setup) \<and>
   sensorOnlineLIS3DH (outcome_state (loop (lenv_accel_lost 5000) after_good_setup)) \<and>
   LogInfo ''LIS3DH failed initialization'' []
     \<in> set (trace (outcome_state (loop (lenv_accel_lost 5000) after_good_setup))) \<and>
   last (trace (outcome_state (loop (lenv_accel_lost 5000) after_good_setup))) =
     LogInfo ''Power on test complete - measuring resumed'' []"
  by code_simp

text \<open>
  The stop branch of the self-test (lines 196-199) is out of reach once both flags are
  set, which they are whenever \<^verbatim>\<open>loop\<close> runs at all.
\<close>

lemma loop_never_halts_once_online:
  "sensorOnlineLIS3DH s \<Longrightarrow> sensorOnlineTOF s \<Longrightarrow> \<not> isHalted (loop env s)"
  by (simp add: loop_Halted_iff)

end
